theory Spec2Isabelle
  imports Complex_Main "HOL-Library.Multiset"
begin

section \<open>HIMLoco training core: rollout storage, PPO optimizer, actor-critic\<close>

text \<open>
  A shallow embedding of \<^verbatim>\<open>rsl_rl/storage/him_rollout_storage.py\<close>,
  \<^verbatim>\<open>rsl_rl/algorithms/him_ppo.py\<close> and \<^verbatim>\<open>rsl_rl/modules/him_actor_critic.py\<close>.

  Conventions of the embedding.
  \<^item> Tensor entries are real numbers, the finite values of the tensors' floating-point
    type; infinities and overflow are not modelled. The arithmetic of
    \<^verbatim>\<open>compute_returns\<close> and \<^verbatim>\<open>get_statistics\<close> is rounded: the rounding function and
    the reductions of torch are parameters (\<open>tensor_ops\<close>), with exact arithmetic and
    32-bit floats as two instances. The other methods are modelled in exact arithmetic.
    A tensor whose entries torch computes as NaN is the value \<open>None\<close>.
  \<^item> A tensor of shape \<open>[T, N, d]\<close> is a list (time steps) of lists (environments) of
    feature vectors. A trailing dimension of size one (\<open>rewards\<close>, \<open>values\<close>,
    \<open>dones\<close>, ...) is dropped, so those buffers are lists of lists of scalars. Done
    flags are booleans, read as 0/1 by \<open>.float()\<close>.
  \<^item> Shapes are taken to conform: torch's own shape errors inside \<open>copy_\<close>, \<open>cat\<close> and
    broadcasting are not modelled. The Python-level failures of the source (the overflow
    assertion, a field that is still \<open>None\<close>, a division by zero) are values of
    \<open>error\<close>.
  \<^item> An operation that mutates \<open>self\<close> takes the state and returns the new one. Where the
    state left behind by an exception matters, the error carries it: \<open>Inl (e, s)\<close>.
\<close>

subsection \<open>Errors\<close>

datatype error =
    BufferOverflow      \<comment> \<open>\<^verbatim>\<open>AssertionError("Rollout buffer overflow")\<close>\<close>
  | TypeError           \<comment> \<open>an operand or argument that is \<^verbatim>\<open>None\<close>\<close>
  | AttributeError      \<comment> \<open>a method looked up on \<^verbatim>\<open>None\<close>\<close>
  | ZeroDivisionError
  | UnboundLocalError
  | IndexError

subsection \<open>Transition\<close>

text \<open>Class \<^verbatim>\<open>HIMRolloutStorage.Transition\<close>: every field starts as \<^verbatim>\<open>None\<close>.\<close>

record transition =
  tr_observations :: "real list list option"
  tr_critic_observations :: "real list list option"
  tr_actions :: "real list list option"
  tr_rewards :: "real list option"
  tr_dones :: "bool list option"
  tr_values :: "real list option"
  tr_actions_log_prob :: "real list option"
  tr_action_mean :: "real list list option"
  tr_action_sigma :: "real list list option"
  tr_next_critic_observations :: "real list list option"

definition Transition_init :: transition where
  "Transition_init =
     \<lparr>tr_observations = None, tr_critic_observations = None, tr_actions = None,
      tr_rewards = None, tr_dones = None, tr_values = None, tr_actions_log_prob = None,
      tr_action_mean = None, tr_action_sigma = None, tr_next_critic_observations = None\<rparr>"

text \<open>\<^verbatim>\<open>Transition.clear\<close> runs \<^verbatim>\<open>__init__\<close> again.\<close>

definition Transition_clear :: "transition \<Rightarrow> transition" where
  "Transition_clear tr = Transition_init"

subsection \<open>Rollout storage\<close>

record storage =
  num_envs :: nat
  num_transitions_per_env :: nat
  observations :: "real list list list"
  privileged_observations :: "real list list list option"
  next_privileged_observations :: "real list list list option"
  rewards :: "real list list"
  actions :: "real list list list"
  dones :: "bool list list"
  actions_log_prob :: "real list list"
  values_buf :: "real list list"   \<comment> \<open>\<^verbatim>\<open>self.values\<close>\<close>
  returns :: "real list list"
  advantages :: "real list list option"
  mu :: "real list list list"
  sigma :: "real list list list"
  step :: nat

text \<open>\<^verbatim>\<open>torch.zeros(T, N, d)\<close> and \<^verbatim>\<open>torch.zeros(T, N, 1)\<close>.\<close>

definition zeros3 :: "nat \<Rightarrow> nat \<Rightarrow> nat \<Rightarrow> real list list list" where
  "zeros3 t n d = replicate t (replicate n (replicate d 0))"

definition zeros2 :: "nat \<Rightarrow> nat \<Rightarrow> real list list" where
  "zeros2 t n = replicate t (replicate n 0)"

text \<open>
  \<^verbatim>\<open>HIMRolloutStorage.__init__\<close>. The privileged shape is \<open>None\<close> when
  \<^verbatim>\<open>privileged_obs_shape[0] is None\<close>.
\<close>

definition HIMRolloutStorage_init ::
  "nat \<Rightarrow> nat \<Rightarrow> nat \<Rightarrow> nat option \<Rightarrow> nat \<Rightarrow> storage" where
  "HIMRolloutStorage_init n t obs_shape privileged_obs_shape actions_shape =
     \<lparr>num_envs = n,
      num_transitions_per_env = t,
      observations = zeros3 t n obs_shape,
      privileged_observations = map_option (zeros3 t n) privileged_obs_shape,
      next_privileged_observations = map_option (zeros3 t n) privileged_obs_shape,
      rewards = zeros2 t n,
      actions = zeros3 t n actions_shape,
      dones = replicate t (replicate n False),
      actions_log_prob = zeros2 t n,
      values_buf = zeros2 t n,
      returns = zeros2 t n,
      advantages = Some (zeros2 t n),
      mu = zeros3 t n actions_shape,
      sigma = zeros3 t n actions_shape,
      step = 0\<rparr>"

type_synonym storage_write = "storage \<Rightarrow> (error \<times> storage) + storage"

text \<open>
  One line \<^verbatim>\<open>self.buf[self.step].copy_(transition.field)\<close> of \<^verbatim>\<open>add_transitions\<close>:
  the field must hold a tensor; the slot \<open>step\<close> of the buffer is overwritten.
\<close>

definition copy_observations :: "transition \<Rightarrow> storage_write" where
  "copy_observations tr s =
     (case tr_observations tr of
        None \<Rightarrow> Inl (TypeError, s)
      | Some v \<Rightarrow> Inr (s\<lparr>observations := (observations s)[step s := v]\<rparr>))"

definition copy_privileged_observations :: "transition \<Rightarrow> storage_write" where
  "copy_privileged_observations tr s =
     (case privileged_observations s of
        None \<Rightarrow> Inr s
      | Some buf \<Rightarrow>
          (case tr_critic_observations tr of
             None \<Rightarrow> Inl (TypeError, s)
           | Some v \<Rightarrow> Inr (s\<lparr>privileged_observations := Some (buf[step s := v])\<rparr>)))"

definition copy_next_privileged_observations :: "transition \<Rightarrow> storage_write" where
  "copy_next_privileged_observations tr s =
     (case next_privileged_observations s of
        None \<Rightarrow> Inr s
      | Some buf \<Rightarrow>
          (case tr_next_critic_observations tr of
             None \<Rightarrow> Inl (TypeError, s)
           | Some v \<Rightarrow> Inr (s\<lparr>next_privileged_observations := Some (buf[step s := v])\<rparr>)))"

definition copy_actions :: "transition \<Rightarrow> storage_write" where
  "copy_actions tr s =
     (case tr_actions tr of
        None \<Rightarrow> Inl (TypeError, s)
      | Some v \<Rightarrow> Inr (s\<lparr>actions := (actions s)[step s := v]\<rparr>))"

definition copy_rewards :: "transition \<Rightarrow> storage_write" where
  "copy_rewards tr s =
     (case tr_rewards tr of
        None \<Rightarrow> Inl (AttributeError, s)
      | Some v \<Rightarrow> Inr (s\<lparr>rewards := (rewards s)[step s := v]\<rparr>))"

definition copy_dones :: "transition \<Rightarrow> storage_write" where
  "copy_dones tr s =
     (case tr_dones tr of
        None \<Rightarrow> Inl (AttributeError, s)
      | Some v \<Rightarrow> Inr (s\<lparr>dones := (dones s)[step s := v]\<rparr>))"

definition copy_values :: "transition \<Rightarrow> storage_write" where
  "copy_values tr s =
     (case tr_values tr of
        None \<Rightarrow> Inl (TypeError, s)
      | Some v \<Rightarrow> Inr (s\<lparr>values_buf := (values_buf s)[step s := v]\<rparr>))"

definition copy_actions_log_prob :: "transition \<Rightarrow> storage_write" where
  "copy_actions_log_prob tr s =
     (case tr_actions_log_prob tr of
        None \<Rightarrow> Inl (AttributeError, s)
      | Some v \<Rightarrow> Inr (s\<lparr>actions_log_prob := (actions_log_prob s)[step s := v]\<rparr>))"

definition copy_mu :: "transition \<Rightarrow> storage_write" where
  "copy_mu tr s =
     (case tr_action_mean tr of
        None \<Rightarrow> Inl (TypeError, s)
      | Some v \<Rightarrow> Inr (s\<lparr>mu := (mu s)[step s := v]\<rparr>))"

definition copy_sigma :: "transition \<Rightarrow> storage_write" where
  "copy_sigma tr s =
     (case tr_action_sigma tr of
        None \<Rightarrow> Inl (TypeError, s)
      | Some v \<Rightarrow> Inr (s\<lparr>sigma := (sigma s)[step s := v]\<rparr>))"

text \<open>Statements in sequence: the first one that raises ends the run.\<close>

fun seq_writes :: "storage_write list \<Rightarrow> storage_write" where
  "seq_writes [] s = Inr s"
| "seq_writes (w # ws) s = (case w s of Inl e \<Rightarrow> Inl e | Inr s' \<Rightarrow> seq_writes ws s')"

text \<open>
  \<^verbatim>\<open>HIMRolloutStorage.add_transitions\<close>: the overflow check comes first, then the ten
  copies in the order of the source, then \<^verbatim>\<open>self.step += 1\<close>.
\<close>

definition add_transitions :: "storage \<Rightarrow> transition \<Rightarrow> (error \<times> storage) + storage" where
  "add_transitions s tr =
     (if step s \<ge> num_transitions_per_env s then Inl (BufferOverflow, s)
      else
        (case seq_writes
                [copy_observations tr, copy_privileged_observations tr,
                 copy_next_privileged_observations tr, copy_actions tr, copy_rewards tr,
                 copy_dones tr, copy_values tr, copy_actions_log_prob tr, copy_mu tr,
                 copy_sigma tr] s of
           Inl e \<Rightarrow> Inl e
         | Inr s' \<Rightarrow> Inr (s'\<lparr>step := step s' + 1\<rparr>)))"

text \<open>\<^verbatim>\<open>HIMRolloutStorage.clear\<close>.\<close>

definition clear :: "storage \<Rightarrow> storage" where
  "clear s = s\<lparr>step := 0\<rparr>"

text \<open>\<^verbatim>\<open>add_transitions\<close> called once for each transition of a list, in order.\<close>

fun add_all :: "storage \<Rightarrow> transition list \<Rightarrow> (error \<times> storage) + storage" where
  "add_all s [] = Inr s"
| "add_all s (tr # trs) =
     (case add_transitions s tr of Inl e \<Rightarrow> Inl e | Inr s' \<Rightarrow> add_all s' trs)"

text \<open>A transition whose ten fields have all been set.\<close>

definition populated :: "transition \<Rightarrow> bool" where
  "populated tr \<longleftrightarrow>
     tr_observations tr \<noteq> None \<and> tr_critic_observations tr \<noteq> None \<and>
     tr_actions tr \<noteq> None \<and> tr_rewards tr \<noteq> None \<and> tr_dones tr \<noteq> None \<and>
     tr_values tr \<noteq> None \<and> tr_actions_log_prob tr \<noteq> None \<and>
     tr_action_mean tr \<noteq> None \<and> tr_action_sigma tr \<noteq> None \<and>
     tr_next_critic_observations tr \<noteq> None"

subsection \<open>Floating-point arithmetic\<close>

text \<open>
  What \<^verbatim>\<open>compute_returns\<close> uses of torch's arithmetic on the tensors' type:
  \<^item> \<open>rnd\<close> rounds the exact result of one elementwise operation to the type; every
    \<^verbatim>\<open>+\<close>, \<^verbatim>\<open>-\<close>, \<^verbatim>\<open>*\<close> and \<^verbatim>\<open>/\<close> of the source is one such operation;
  \<^item> \<open>mean_op\<close> is \<^verbatim>\<open>tensor.mean()\<close> over all entries of a tensor that is not empty;
  \<^item> \<open>std_op\<close> is \<^verbatim>\<open>tensor.std()\<close>, the sample standard deviation with Bessel's
    correction, of a tensor of two entries or more;
  \<^item> \<open>eps\<close> is the scalar \<^verbatim>\<open>1e-8\<close> as converted to the type.
  The Python scalars \<open>gamma\<close> and \<open>lam\<close> stand for their values as converted to the type.
\<close>

record tensor_ops =
  rnd :: "real \<Rightarrow> real"
  mean_op :: "real list \<Rightarrow> real"
  std_op :: "real list \<Rightarrow> real"
  eps :: real









subsection \<open>Returns and advantages\<close>

text \<open>
  One pass of the loop body of \<^verbatim>\<open>compute_returns\<close> at time step \<open>t\<close>, for all
  environments at once: the new value of the running \<^verbatim>\<open>advantage\<close>. The operations
  are those of the source, in its order of evaluation:
  \<^verbatim>\<open>(rewards + ((mask * gamma) * next_values)) - values\<close> and
  \<^verbatim>\<open>delta + (((mask * gamma) * lam) * advantage)\<close>.
\<close>

definition gae_advantage ::
  "tensor_ops \<Rightarrow> storage \<Rightarrow> real list \<Rightarrow> real \<Rightarrow> real \<Rightarrow> nat \<Rightarrow> real list \<Rightarrow> real list" where
  "gae_advantage ops s last_values gamma lam t advantage =
     (let next_values =
            (if t = num_transitions_per_env s - 1 then last_values
             else values_buf s ! (t + 1))
      in map (\<lambda>i.
            let next_is_not_terminal = rnd ops (1 - (if dones s ! t ! i then 1 else 0));
                delta = rnd ops
                          (rnd ops (rewards s ! t ! i
                                     + rnd ops (rnd ops (next_is_not_terminal * gamma)
                                                 * next_values ! i))
                           - values_buf s ! t ! i)
            in rnd ops
                 (delta + rnd ops (rnd ops (rnd ops (next_is_not_terminal * gamma) * lam)
                                    * advantage ! i)))
          [0..<num_envs s])"

definition returns_step ::
  "tensor_ops \<Rightarrow> storage \<Rightarrow> real list \<Rightarrow> real \<Rightarrow> real \<Rightarrow> nat
     \<Rightarrow> real list \<times> real list list \<Rightarrow> real list \<times> real list list" where
  "returns_step ops s last_values gamma lam t acc =
     (let advantage = gae_advantage ops s last_values gamma lam t (fst acc)
      in (advantage,
          (snd acc)[t := map (\<lambda>i. rnd ops (advantage ! i + values_buf s ! t ! i))
                           [0..<num_envs s]]))"

text \<open>
  \<^verbatim>\<open>(adv - adv.mean()) / (adv.std() + 1e-8)\<close>. Of an empty tensor the result is the
  empty tensor. The deviation of a single entry divides zero by zero: it is NaN, and so
  is the result, \<open>None\<close>. A zero denominator leaves no finite entry either.
\<close>

definition normalize :: "tensor_ops \<Rightarrow> real list list \<Rightarrow> real list list option" where
  "normalize ops adv =
     (if concat adv = [] then Some adv
      else if length (concat adv) < 2 then None
      else
        let m = mean_op ops (concat adv);
            denominator = rnd ops (std_op ops (concat adv) + eps ops)
        in if denominator = 0 then None
           else Some (map (map (\<lambda>a. rnd ops (rnd ops (a - m) / denominator))) adv))"

text \<open>
  \<^verbatim>\<open>HIMRolloutStorage.compute_returns\<close>. The running advantage starts as the scalar 0,
  broadcast over the environments; the loop runs over \<^verbatim>\<open>reversed(range(T))\<close>.
\<close>

definition compute_returns ::
  "tensor_ops \<Rightarrow> storage \<Rightarrow> real list \<Rightarrow> real \<Rightarrow> real \<Rightarrow> storage" where
  "compute_returns ops s last_values gamma lam =
     (let acc = fold (returns_step ops s last_values gamma lam)
                  (rev [0..<num_transitions_per_env s])
                  (replicate (num_envs s) 0, returns s);
          rets = snd acc;
          adv = map (\<lambda>t. map (\<lambda>i. rnd ops (rets ! t ! i - values_buf s ! t ! i))
                            [0..<num_envs s])
                  [0..<num_transitions_per_env s]
      in s\<lparr>returns := rets, advantages := normalize ops adv\<rparr>)"


text \<open>The buffers have the shape \<open>[T, N]\<close> that \<^verbatim>\<open>__init__\<close> gives them.\<close>

definition has_shape :: "nat \<Rightarrow> nat \<Rightarrow> 'a list list \<Rightarrow> bool" where
  "has_shape t n buf \<longleftrightarrow> length buf = t \<and> (\<forall>row\<in>set buf. length row = n)"

definition shaped :: "storage \<Rightarrow> bool" where
  "shaped s \<longleftrightarrow>
     (privileged_observations s = None) = (next_privileged_observations s = None) \<and>
     has_shape (num_transitions_per_env s) (num_envs s) (observations s) \<and>
     (case privileged_observations s of
        None \<Rightarrow> True
      | Some b \<Rightarrow> has_shape (num_transitions_per_env s) (num_envs s) b) \<and>
     (case next_privileged_observations s of
        None \<Rightarrow> True
      | Some b \<Rightarrow> has_shape (num_transitions_per_env s) (num_envs s) b) \<and>
     has_shape (num_transitions_per_env s) (num_envs s) (rewards s) \<and>
     has_shape (num_transitions_per_env s) (num_envs s) (actions s) \<and>
     has_shape (num_transitions_per_env s) (num_envs s) (dones s) \<and>
     has_shape (num_transitions_per_env s) (num_envs s) (actions_log_prob s) \<and>
     has_shape (num_transitions_per_env s) (num_envs s) (values_buf s) \<and>
     has_shape (num_transitions_per_env s) (num_envs s) (returns s) \<and>
     has_shape (num_transitions_per_env s) (num_envs s) (mu s) \<and>
     has_shape (num_transitions_per_env s) (num_envs s) (sigma s)"

text \<open>
  \<^verbatim>\<open>HIMRolloutStorage.get_statistics\<close>. The assignment \<^verbatim>\<open>done[-1] = 1\<close> writes
  through to \<^verbatim>\<open>self.dones\<close> and raises on a buffer of no step. The done flags are
  then flattened environment by environment, the positions of the set flags are taken,
  preceded by \<open>-1\<close>, and the trajectory lengths are the differences of neighbours. The
  result is the mean length and the mean reward; the mean of no entry is NaN.
\<close>

definition get_statistics ::
  "tensor_ops \<Rightarrow> storage
     \<Rightarrow> (error \<times> storage) + ((real option \<times> real option) \<times> storage)" where
  "get_statistics ops s =
     (if dones s = [] then Inl (IndexError, s)
      else
        let done = (dones s)[length (dones s) - 1 := map (\<lambda>_. True) (last (dones s))];
            flat_dones = concat (transpose done);
            done_indices = (- 1) # map int (filter (\<lambda>j. flat_dones ! j) [0..<length flat_dones]);
            trajectory_lengths =
              map (\<lambda>x. real_of_int (fst x - snd x)) (zip (tl done_indices) (butlast done_indices));
            mean = (\<lambda>xs. if xs = [] then None else Some (mean_op ops xs))
        in Inr ((mean trajectory_lengths, mean (concat (rewards s))), s\<lparr>dones := done\<rparr>))"

text \<open>
  The storages a program can hold: the one \<^verbatim>\<open>__init__\<close> builds and whatever the
  methods that write to the object make of it, whether they return or raise.
\<close>

inductive reachable :: "storage \<Rightarrow> bool" where
  init: "reachable (HIMRolloutStorage_init n t obs_shape privileged_obs_shape actions_shape)"
| add_ok: "reachable s \<Longrightarrow> add_transitions s tr = Inr s' \<Longrightarrow> reachable s'"
| add_raise: "reachable s \<Longrightarrow> add_transitions s tr = Inl (e, s') \<Longrightarrow> reachable s'"
| cleared: "reachable s \<Longrightarrow> reachable (clear s)"
| returns_computed: "reachable s \<Longrightarrow> reachable (compute_returns ops s last_values gamma lam)"
| statistics_ok: "reachable s \<Longrightarrow> get_statistics ops s = Inr (r, s') \<Longrightarrow> reachable s'"
| statistics_raise: "reachable s \<Longrightarrow> get_statistics ops s = Inl (e, s') \<Longrightarrow> reachable s'"

subsection \<open>Minibatches\<close>

text \<open>
  \<^verbatim>\<open>torch.randperm\<close> reads and advances the state of a random generator. The generator
  is a parameter: a function from a state and a size to the drawn index list and the
  next state.
\<close>

type_synonym 'g randperm = "'g \<Rightarrow> nat \<Rightarrow> nat list \<times> 'g"

text \<open>Python's \<^verbatim>\<open>xs[start:end]\<close> for \<open>0 \<le> start \<le> end\<close>.\<close>

definition slice :: "'a list \<Rightarrow> nat \<Rightarrow> nat \<Rightarrow> 'a list" where
  "slice xs start end = take (end - start) (drop start xs)"

text \<open>The inner loop: the index chunks \<^verbatim>\<open>batch_idx\<close> of one epoch.\<close>

definition epoch_batch_idx :: "nat list \<Rightarrow> nat \<Rightarrow> nat \<Rightarrow> nat list list" where
  "epoch_batch_idx indices num_mini_batches mini_batch_size =
     map (\<lambda>i. slice indices (i * mini_batch_size) ((i + 1) * mini_batch_size))
       [0..<num_mini_batches]"

text \<open>
  The index chunks \<^verbatim>\<open>batch_idx\<close> that \<^verbatim>\<open>mini_batch_generator\<close> goes through, in the
  order of its two loops, and the generator state after the call. \<^verbatim>\<open>batch_size //
  num_mini_batches\<close> raises for zero minibatches. The Python generator is lazy: this is
  what iterating it to the end produces.
\<close>

definition mini_batch_indices ::
  "'g randperm \<Rightarrow> storage \<Rightarrow> nat \<Rightarrow> nat \<Rightarrow> 'g \<Rightarrow> error + (nat list list \<times> 'g)" where
  "mini_batch_indices randperm s num_mini_batches num_epochs g =
     (if num_mini_batches = 0 then Inl ZeroDivisionError
      else
        let batch_size = num_envs s * num_transitions_per_env s;
            mini_batch_size = batch_size div num_mini_batches;
            drawn = randperm g (num_mini_batches * mini_batch_size);
            indices = fst drawn
        in Inr (concat (map (\<lambda>epoch. epoch_batch_idx indices num_mini_batches mini_batch_size)
                         [0..<num_epochs]),
                snd drawn))"

record minibatch =
  obs_batch :: "real list list"
  critic_observations_batch :: "real list list"
  actions_batch :: "real list list"
  next_critic_observations_batch :: "real list list"
  target_values_batch :: "real list"
  advantages_batch :: "real list option"
  returns_batch :: "real list"
  old_actions_log_prob_batch :: "real list"
  old_mu_batch :: "real list list"
  old_sigma_batch :: "real list list"

text \<open>\<^verbatim>\<open>tensor[batch_idx]\<close> on a tensor flattened by \<^verbatim>\<open>flatten(0, 1)\<close>.\<close>

definition index_select :: "'a list list \<Rightarrow> nat list \<Rightarrow> 'a list" where
  "index_select buf batch_idx = map (\<lambda>j. concat buf ! j) batch_idx"

text \<open>
  The critic's buffers: the privileged observations when the storage has them, the policy
  observations otherwise. The source reads \<^verbatim>\<open>next_privileged_observations\<close> only
  under the test of \<^verbatim>\<open>privileged_observations\<close>.
\<close>

definition critic_buffers ::
  "storage \<Rightarrow> error + (real list list list \<times> real list list list)" where
  "critic_buffers s =
     (case privileged_observations s of
        None \<Rightarrow> Inr (observations s, observations s)
      | Some b \<Rightarrow>
          (case next_privileged_observations s of
             None \<Rightarrow> Inl AttributeError
           | Some nb \<Rightarrow> Inr (b, nb)))"

definition gather_batch ::
  "storage \<Rightarrow> real list list list \<times> real list list list \<Rightarrow> nat list \<Rightarrow> minibatch" where
  "gather_batch s critic batch_idx =
     \<lparr>obs_batch = index_select (observations s) batch_idx,
      critic_observations_batch = index_select (fst critic) batch_idx,
      actions_batch = index_select (actions s) batch_idx,
      next_critic_observations_batch = index_select (snd critic) batch_idx,
      target_values_batch = index_select (values_buf s) batch_idx,
      advantages_batch = map_option (\<lambda>a. index_select a batch_idx) (advantages s),
      returns_batch = index_select (returns s) batch_idx,
      old_actions_log_prob_batch = index_select (actions_log_prob s) batch_idx,
      old_mu_batch = index_select (mu s) batch_idx,
      old_sigma_batch = index_select (sigma s) batch_idx\<rparr>"

text \<open>\<^verbatim>\<open>HIMRolloutStorage.mini_batch_generator\<close>, iterated to the end.\<close>

definition mini_batch_generator ::
  "'g randperm \<Rightarrow> storage \<Rightarrow> nat \<Rightarrow> nat \<Rightarrow> 'g \<Rightarrow> error + (minibatch list \<times> 'g)" where
  "mini_batch_generator randperm s num_mini_batches num_epochs g =
     (case mini_batch_indices randperm s num_mini_batches num_epochs g of
        Inl e \<Rightarrow> Inl e
      | Inr r \<Rightarrow>
          (case critic_buffers s of
             Inl e \<Rightarrow> Inl e
           | Inr critic \<Rightarrow> Inr (map (gather_batch s critic) (fst r), snd r)))"

text \<open>
  The index chunks as the specification words them: each epoch draws its own
  permutation of all \<open>T * N\<close> indices and cuts it into \<open>M\<close> chunks of equal size.
\<close>

fun fresh_epochs :: "'g randperm \<Rightarrow> nat \<Rightarrow> nat \<Rightarrow> nat \<Rightarrow> 'g \<Rightarrow> nat list list \<times> 'g" where
  "fresh_epochs randperm batch_size num_mini_batches 0 g = ([], g)"
| "fresh_epochs randperm batch_size num_mini_batches (Suc e) g =
     (let drawn = randperm g batch_size;
          later = fresh_epochs randperm batch_size num_mini_batches e (snd drawn)
      in (epoch_batch_idx (fst drawn) num_mini_batches (batch_size div num_mini_batches)
            @ fst later,
          snd later))"

definition mini_batch_indices_spec ::
  "'g randperm \<Rightarrow> storage \<Rightarrow> nat \<Rightarrow> nat \<Rightarrow> 'g \<Rightarrow> nat list list \<times> 'g" where
  "mini_batch_indices_spec randperm s num_mini_batches num_epochs g =
     fresh_epochs randperm (num_envs s * num_transitions_per_env s) num_mini_batches
       num_epochs g"

text \<open>Every tensor of a minibatch has \<open>n\<close> rows (a NaN tensor has whatever shape).\<close>

definition batch_has_size :: "minibatch \<Rightarrow> nat \<Rightarrow> bool" where
  "batch_has_size b n \<longleftrightarrow>
     length (obs_batch b) = n \<and> length (critic_observations_batch b) = n \<and>
     length (actions_batch b) = n \<and> length (next_critic_observations_batch b) = n \<and>
     length (target_values_batch b) = n \<and>
     (case advantages_batch b of None \<Rightarrow> True | Some a \<Rightarrow> length a = n) \<and>
     length (returns_batch b) = n \<and> length (old_actions_log_prob_batch b) = n \<and>
     length (old_mu_batch b) = n \<and> length (old_sigma_batch b) = n"

text \<open>
  The batches of epoch \<open>e\<close> in the sequence that the generator yields: the run of
  \<open>num_mini_batches\<close> consecutive elements from position \<open>e * num_mini_batches\<close>.
\<close>

definition epoch_of :: "'a list \<Rightarrow> nat \<Rightarrow> nat \<Rightarrow> 'a list" where
  "epoch_of yielded num_mini_batches e =
     take num_mini_batches (drop (e * num_mini_batches) yielded)"

text \<open>A generator that returns a permutation of \<open>0, ..., n - 1\<close>, as \<^verbatim>\<open>torch.randperm\<close> does.\<close>

definition draws_permutations :: "'g randperm \<Rightarrow> bool" where
  "draws_permutations randperm \<longleftrightarrow> (\<forall>g n. mset (fst (randperm g n)) = mset [0..<n])"

subsection \<open>Actor-critic\<close>

text \<open>
  The estimator and the actor network are torch modules: parameters of the model, functions
  from a batch to a batch. \<^verbatim>\<open>Normal(mean, mean * 0. + self.std)\<close> keeps its two
  arguments.
\<close>

record normal =
  mean :: "real list list"
  stddev :: "real list list"

record actor_critic_state =
  num_one_step_obs :: nat
  std :: "real list"
  distribution :: "normal option"

type_synonym estimator = "real list list \<Rightarrow> real list list \<times> real list list"
type_synonym network = "real list list \<Rightarrow> real list list"

text \<open>\<^verbatim>\<open>torch.cat((obs_history[:, :self.num_one_step_obs], vel, latent), dim=-1)\<close>.\<close>

definition actor_input ::
  "nat \<Rightarrow> real list list \<Rightarrow> real list list \<Rightarrow> real list list \<Rightarrow> real list list" where
  "actor_input k obs_history vel latent =
     map (\<lambda>r. take k (fst r) @ fst (snd r) @ snd (snd r)) (zip obs_history (zip vel latent))"

definition update_distribution ::
  "estimator \<Rightarrow> network \<Rightarrow> actor_critic_state \<Rightarrow> real list list \<Rightarrow> actor_critic_state" where
  "update_distribution estimator actor ac obs_history =
     (let est = estimator obs_history;
          m = actor (actor_input (num_one_step_obs ac) obs_history (fst est) (snd est))
      in ac\<lparr>distribution :=
              Some \<lparr>mean = m,
                    stddev = map (\<lambda>row. map (\<lambda>ms. fst ms * 0 + snd ms) (zip row (std ac))) m\<rparr>\<rparr>)"

text \<open>
  \<^verbatim>\<open>act\<close>: the sample is drawn by \<^verbatim>\<open>self.distribution.sample()\<close> from torch's random
  generator, a parameter as for \<^verbatim>\<open>randperm\<close>.
\<close>

definition act ::
  "estimator \<Rightarrow> network \<Rightarrow> (normal \<Rightarrow> 'g \<Rightarrow> real list list \<times> 'g) \<Rightarrow> actor_critic_state
     \<Rightarrow> real list list \<Rightarrow> 'g \<Rightarrow> error + (real list list \<times> actor_critic_state \<times> 'g)" where
  "act estimator actor sample ac obs_history g =
     (let ac' = update_distribution estimator actor ac obs_history
      in case distribution ac' of
           None \<Rightarrow> Inl AttributeError
         | Some d \<Rightarrow> Inr (fst (sample d g), ac', snd (sample d g)))"

definition act_inference ::
  "estimator \<Rightarrow> network \<Rightarrow> actor_critic_state \<Rightarrow> real list list \<Rightarrow> real list list" where
  "act_inference estimator actor ac obs_history =
     (let est = estimator obs_history
      in actor (actor_input (num_one_step_obs ac) obs_history (fst est) (snd est)))"

subsection \<open>PPO\<close>

text \<open>
  The fields of \<^verbatim>\<open>HIMPPO\<close> that the modelled methods read or write. The actor-critic
  with its optimizer state is of an abstract type \<open>'net\<close>; \<^verbatim>\<open>optimizer_lr\<close> lists the
  \<^verbatim>\<open>lr\<close> entries of \<^verbatim>\<open>self.optimizer.param_groups\<close>.
\<close>

record 'net ppo =
  actor_critic :: 'net
  learning_rate :: real
  optimizer_lr :: "real list"
  desired_kl :: "real option"
  schedule :: string
  num_learning_epochs :: nat
  num_mini_batches :: nat
  gamma :: real
  lam :: real
  ppo_storage :: "storage option"
  ppo_transition :: transition

text \<open>
  \<^verbatim>\<open>process_env_step\<close>. \<open>infos\<close> is the dictionary of the step; only its key
  \<^verbatim>\<open>time_outs\<close> is read, a boolean per environment. The bootstrapping line multiplies
  the stored values by the flags (\<^verbatim>\<open>None * tensor\<close> raises) and adds \<open>gamma\<close> times the
  product to the rewards in place.
\<close>

definition bootstrap_time_outs ::
  "real \<Rightarrow> (string \<rightharpoonup> bool list) \<Rightarrow> transition \<Rightarrow> error + transition" where
  "bootstrap_time_outs g infos tr =
     (case infos ''time_outs'' of
        None \<Rightarrow> Inr tr
      | Some time_outs \<Rightarrow>
          (case tr_values tr of
             None \<Rightarrow> Inl TypeError
           | Some v \<Rightarrow>
               Inr (tr\<lparr>tr_rewards :=
                         map_option
                           (\<lambda>r. map (\<lambda>x. fst x + g * (fst (snd x) * (if snd (snd x) then 1 else 0)))
                                  (zip r (zip v time_outs)))
                           (tr_rewards tr)\<rparr>)))"

definition process_env_step ::
  "'net ppo \<Rightarrow> real list \<Rightarrow> bool list \<Rightarrow> (string \<rightharpoonup> bool list) \<Rightarrow> real list list
     \<Rightarrow> (error \<times> 'net ppo) + 'net ppo" where
  "process_env_step p rewards_in dones_in infos next_critic_obs =
     (let tr1 = (ppo_transition p)
                  \<lparr>tr_next_critic_observations := Some next_critic_obs,
                   tr_rewards := Some rewards_in,
                   tr_dones := Some dones_in\<rparr>
      in case bootstrap_time_outs (gamma p) infos tr1 of
           Inl e \<Rightarrow> Inl (e, p\<lparr>ppo_transition := tr1\<rparr>)
         | Inr tr2 \<Rightarrow>
             (case ppo_storage p of
                None \<Rightarrow> Inl (AttributeError, p\<lparr>ppo_transition := tr2\<rparr>)
              | Some st \<Rightarrow>
                  (case add_transitions st tr2 of
                     Inl r \<Rightarrow> Inl (fst r, p\<lparr>ppo_transition := tr2, ppo_storage := Some (snd r)\<rparr>)
                   | Inr st' \<Rightarrow>
                       Inr (p\<lparr>ppo_transition := Transition_clear tr2,
                              ppo_storage := Some st'\<rparr>))))"

text \<open>
  The two branches of the adaptive schedule, lines 150 to 153 of \<^verbatim>\<open>him_ppo.py\<close>:
  \<open>d\<close> is \<^verbatim>\<open>self.desired_kl\<close>, \<open>lr\<close> is \<^verbatim>\<open>self.learning_rate\<close>.
\<close>

definition adapt_learning_rate :: "real \<Rightarrow> real \<Rightarrow> real \<Rightarrow> real" where
  "adapt_learning_rate d lr kl_mean =
     (if kl_mean > d * 2 then max (1 / 10 ^ 5) (lr / (3 / 2))
      else if kl_mean < d / 2 \<and> kl_mean > 0 then min (1 / 10 ^ 2) (lr * (3 / 2))
      else lr)"

text \<open>
  The block under \<^verbatim>\<open>if self.desired_kl != None and self.schedule == 'adaptive'\<close>, given
  the batch mean \<open>kl_mean\<close> that torch computed: the rate is adjusted and written to every
  parameter group of the optimizer.
\<close>

definition kl_schedule :: "'net ppo \<Rightarrow> real \<Rightarrow> 'net ppo" where
  "kl_schedule p kl_mean =
     (case desired_kl p of
        None \<Rightarrow> p
      | Some d \<Rightarrow>
          if schedule p = ''adaptive''
          then let lr = adapt_learning_rate d (learning_rate p) kl_mean
               in p\<lparr>learning_rate := lr, optimizer_lr := map (\<lambda>_. lr) (optimizer_lr p)\<rparr>
          else p)"

text \<open>
  The torch computations of one minibatch, parameters of the model:
  \<^item> \<open>forward_kl\<close>: the forward pass on the batch and the closed-form KL estimate, its batch
    mean (lines 136 to 148);
  \<^item> \<open>estimator_update\<close>: \<^verbatim>\<open>self.actor_critic.estimator.update(..., lr=...)\<close>, which
    returns the estimation loss and the swap loss (line 159);
  \<^item> \<open>ppo_step\<close>: the surrogate and value losses of the forward pass and the gradient
    step of the optimizer with its current rates (lines 161 to 184); it is given the
    network before and after the estimator's update and returns the stepped network,
    the surrogate loss and the value loss.
\<close>

record 'net torch_ops =
  forward_kl :: "'net \<Rightarrow> minibatch \<Rightarrow> real"
  estimator_update :: "'net \<Rightarrow> minibatch \<Rightarrow> real \<Rightarrow> 'net \<times> real \<times> real"
  ppo_step :: "'net \<Rightarrow> 'net \<Rightarrow> minibatch \<Rightarrow> real list \<Rightarrow> 'net \<times> real \<times> real"

text \<open>
  The local variables of \<^verbatim>\<open>update\<close>: the four running sums, and \<^verbatim>\<open>estimation_loss\<close>
  and \<^verbatim>\<open>swap_loss\<close>, which are unbound until the loop body has run once.
\<close>

record update_locals =
  mean_value_loss :: real
  mean_surrogate_loss :: real
  mean_estimation_loss :: real
  mean_swap_loss :: real
  estimation_loss :: "real option"
  swap_loss :: "real option"

text \<open>The body of the loop over the minibatches.\<close>

definition update_body ::
  "'net torch_ops \<Rightarrow> minibatch \<Rightarrow> 'net ppo \<times> update_locals \<Rightarrow> 'net ppo \<times> update_locals" where
  "update_body ops batch st =
     (let p = fst st; acc = snd st;
          net = actor_critic p;
          p1 = kl_schedule p (forward_kl ops net batch);
          est = estimator_update ops net batch (learning_rate p1);
          stepped = ppo_step ops net (fst est) batch (optimizer_lr p1);
          surrogate_loss = fst (snd stepped);
          value_loss = snd (snd stepped)
      in (p1\<lparr>actor_critic := fst stepped\<rparr>,
          \<lparr>mean_value_loss = mean_value_loss acc + value_loss,
           mean_surrogate_loss = mean_surrogate_loss acc + surrogate_loss,
           mean_estimation_loss = mean_estimation_loss acc + fst (snd est),
           mean_swap_loss = mean_swap_loss acc + snd (snd est),
           estimation_loss = Some (fst (snd est)),
           swap_loss = Some (snd (snd est))\<rparr>))"

text \<open>
  \<^verbatim>\<open>HIMPPO.update\<close>. The four sums are divided by \<^verbatim>\<open>num_updates\<close>, the storage is
  cleared, and the \<^verbatim>\<open>return\<close> statement is the one of the source:
  \<^verbatim>\<open>return mean_value_loss, mean_surrogate_loss, estimation_loss, swap_loss\<close>.
  The state left behind by an exception is not modelled here.
\<close>

definition update ::
  "'net torch_ops \<Rightarrow> 'g randperm \<Rightarrow> 'net ppo \<Rightarrow> 'g
     \<Rightarrow> error + ('net ppo \<times> (real \<times> real \<times> real \<times> real) \<times> 'g)" where
  "update ops randperm p g =
     (case ppo_storage p of
        None \<Rightarrow> Inl AttributeError
      | Some st \<Rightarrow>
          (case mini_batch_generator randperm st (num_mini_batches p) (num_learning_epochs p) g of
             Inl e \<Rightarrow> Inl e
           | Inr gen \<Rightarrow>
               let looped = fold (update_body ops) (fst gen)
                              (p, \<lparr>mean_value_loss = 0, mean_surrogate_loss = 0,
                                   mean_estimation_loss = 0, mean_swap_loss = 0,
                                   estimation_loss = None, swap_loss = None\<rparr>);
                   acc = snd looped;
                   num_updates = num_learning_epochs p * num_mini_batches p
               in if num_updates = 0 then Inl ZeroDivisionError
                  else
                    let acc' = acc\<lparr>mean_value_loss := mean_value_loss acc / real num_updates,
                                   mean_surrogate_loss := mean_surrogate_loss acc / real num_updates,
                                   mean_estimation_loss := mean_estimation_loss acc / real num_updates,
                                   mean_swap_loss := mean_swap_loss acc / real num_updates\<rparr>;
                        p' = (fst looped)\<lparr>ppo_storage := Some (clear st)\<rparr>
                    in (case estimation_loss acc' of
                          None \<Rightarrow> Inl UnboundLocalError
                        | Some el \<Rightarrow>
                            (case swap_loss acc' of
                               None \<Rightarrow> Inl UnboundLocalError
                             | Some sl \<Rightarrow>
                                 Inr (p', (mean_value_loss acc', mean_surrogate_loss acc', el, sl),
                                      snd gen)))))"

text \<open>
  The return value as the specification words it: the four means over the sweep.
\<close>

definition mean_losses_spec :: "(real \<times> real \<times> real \<times> real) list \<Rightarrow> real \<times> real \<times> real \<times> real" where
  "mean_losses_spec ls =
     (sum_list (map fst ls) / real (length ls),
      sum_list (map (\<lambda>l. fst (snd l)) ls) / real (length ls),
      sum_list (map (\<lambda>l. fst (snd (snd l))) ls) / real (length ls),
      sum_list (map (\<lambda>l. snd (snd (snd l))) ls) / real (length ls))"

subsection \<open>Sample data\<close>

text \<open>
  What \<^verbatim>\<open>HIMPPO.act\<close> leaves in the transition: observations, critic observations,
  actions, values, log-probabilities, mean and standard deviation of the actions.
\<close>

definition acted :: "transition \<Rightarrow> bool" where
  "acted tr \<longleftrightarrow>
     tr_observations tr \<noteq> None \<and> tr_critic_observations tr \<noteq> None \<and>
     tr_actions tr \<noteq> None \<and> tr_values tr \<noteq> None \<and>
     tr_actions_log_prob tr \<noteq> None \<and> tr_action_mean tr \<noteq> None \<and>
     tr_action_sigma tr \<noteq> None"

text \<open>
  An optimizer over two environments and a horizon of two steps, after
  \<^verbatim>\<open>act\<close>: the critic values are 10 and 20. The network is left abstract.
\<close>

definition sample_ppo :: "unit ppo" where
  "sample_ppo =
     \<lparr>actor_critic = (), learning_rate = 1 / 1000, optimizer_lr = [1 / 1000],
      desired_kl = Some (1 / 100), schedule = ''adaptive'', num_learning_epochs = 2,
      num_mini_batches = 2, gamma = 99 / 100, lam = 95 / 100,
      ppo_storage = Some (HIMRolloutStorage_init 2 2 3 None 2),
      ppo_transition =
        \<lparr>tr_observations = Some [[1, 2, 3], [4, 5, 6]],
         tr_critic_observations = Some [[1, 2, 3], [4, 5, 6]],
         tr_actions = Some [[0, 0], [0, 0]], tr_rewards = None, tr_dones = None,
         tr_values = Some [10, 20], tr_actions_log_prob = Some [0, 0],
         tr_action_mean = Some [[0, 0], [0, 0]], tr_action_sigma = Some [[1, 1], [1, 1]],
         tr_next_critic_observations = None\<rparr>\<rparr>"


text \<open>A transition with every field set, for one environment with one-dimensional features.\<close>

definition sample_transition :: transition where
  "sample_transition =
     \<lparr>tr_observations = Some [[1]], tr_critic_observations = Some [[2]],
      tr_actions = Some [[3]], tr_rewards = Some [4], tr_dones = Some [True],
      tr_values = Some [5], tr_actions_log_prob = Some [6], tr_action_mean = Some [[7]],
      tr_action_sigma = Some [[8]], tr_next_critic_observations = Some [[9]]\<rparr>"

text \<open>
  A sweep of two minibatches over a storage of two samples whose stored values are 1 and
  3. The stand-in for the estimator reports as estimation loss the sum of the target
  values of the batch, so the two minibatches have the estimation losses 1 and 3; the
  other losses are 0, and the KL estimate sits inside the deadband.
\<close>

definition sample_torch_ops :: "unit torch_ops" where
  "sample_torch_ops =
     \<lparr>forward_kl = (\<lambda>net batch. 1 / 100),
      estimator_update = (\<lambda>net batch lr. (net, sum_list (target_values_batch batch), 0)),
      ppo_step = (\<lambda>net net' batch lrs. (net', 0, 0))\<rparr>"

definition sample_filled_storage :: storage where
  "sample_filled_storage = (HIMRolloutStorage_init 1 2 1 None 1)\<lparr>values_buf := [[1], [3]], step := 2\<rparr>"

definition sample_update_ppo :: "unit ppo" where
  "sample_update_ppo =
     sample_ppo\<lparr>num_learning_epochs := 1, ppo_storage := Some sample_filled_storage\<rparr>"




section \<open>Properties\<close>

subsection \<open>The step counter and the slots of the buffer\<close>

lemmas copy_defs = copy_observations_def copy_privileged_observations_def
  copy_next_privileged_observations_def copy_actions_def copy_rewards_def copy_dones_def
  copy_values_def copy_actions_log_prob_def copy_mu_def copy_sigma_def

lemma add_transitions_Inr:
  assumes "add_transitions s tr = Inr s'"
  shows "step s < num_transitions_per_env s"
    and "s' = s\<lparr>observations := (observations s)[step s := the (tr_observations tr)],
               privileged_observations := map_option (\<lambda>b. b[step s := the (tr_critic_observations tr)]) (privileged_observations s),
               next_privileged_observations := map_option (\<lambda>b. b[step s := the (tr_next_critic_observations tr)]) (next_privileged_observations s),
               actions := (actions s)[step s := the (tr_actions tr)],
               rewards := (rewards s)[step s := the (tr_rewards tr)],
               dones := (dones s)[step s := the (tr_dones tr)],
               values_buf := (values_buf s)[step s := the (tr_values tr)],
               actions_log_prob := (actions_log_prob s)[step s := the (tr_actions_log_prob tr)],
               mu := (mu s)[step s := the (tr_action_mean tr)],
               sigma := (sigma s)[step s := the (tr_action_sigma tr)],
               step := step s + 1\<rparr>"
    and "tr_observations tr \<noteq> None" "tr_actions tr \<noteq> None" "tr_rewards tr \<noteq> None"
        "tr_dones tr \<noteq> None" "tr_values tr \<noteq> None" "tr_actions_log_prob tr \<noteq> None"
        "tr_action_mean tr \<noteq> None" "tr_action_sigma tr \<noteq> None"
        "privileged_observations s \<noteq> None \<longrightarrow> tr_critic_observations tr \<noteq> None"
        "next_privileged_observations s \<noteq> None \<longrightarrow> tr_next_critic_observations tr \<noteq> None"
  using assms
  by (auto simp: add_transitions_def copy_defs split: if_splits option.splits sum.splits)

lemma add_transitions_Inl:
  assumes "add_transitions s tr = Inl (e, s')"
  shows "step s' = step s" and "num_transitions_per_env s' = num_transitions_per_env s"
  using assms
  by (auto simp: add_transitions_def copy_defs split: if_splits option.splits sum.splits)

lemma add_transitions_populated:
  assumes "populated tr" and "step s < num_transitions_per_env s"
  shows "\<exists>s'. add_transitions s tr = Inr s'"
  using assms
  by (auto simp: add_transitions_def copy_defs populated_def split: option.splits)

lemma add_transitions_Inr_frame:
  assumes "add_transitions s tr = Inr s'"
  shows "step s' = step s + 1"
    and "num_transitions_per_env s' = num_transitions_per_env s"
    and "num_envs s' = num_envs s"
  using add_transitions_Inr(2)[OF assms] by simp_all

lemma compute_returns_frame:
  "step (compute_returns ops s lv g l) = step s"
  "num_transitions_per_env (compute_returns ops s lv g l) = num_transitions_per_env s"
  by (simp_all add: compute_returns_def Let_def)

lemma get_statistics_frame:
  assumes "get_statistics ops s = Inr (r, s') \<or> get_statistics ops s = Inl (e, s')"
  shows "step s' = step s" and "num_transitions_per_env s' = num_transitions_per_env s"
  using assms by (auto simp: get_statistics_def Let_def split: if_splits)

lemma reachable_step_le:
  "reachable s \<Longrightarrow> step s \<le> num_transitions_per_env s"
proof (induction rule: reachable.induct)
  case (init n t obs_shape privileged_obs_shape actions_shape)
  show ?case by (simp add: HIMRolloutStorage_init_def)
next
  case (add_ok s tr s')
  from add_transitions_Inr(1)[OF add_ok.hyps(2)] add_transitions_Inr_frame[OF add_ok.hyps(2)]
  show ?case by simp
next
  case (add_raise s tr e s')
  with add_transitions_Inl[OF add_raise.hyps(2)] show ?case by simp
next
  case (cleared s)
  show ?case by (simp add: clear_def)
next
  case (returns_computed s ops last_values gamma lam)
  then show ?case by (simp add: compute_returns_frame)
next
  case (statistics_ok s ops r s')
  with get_statistics_frame[of ops s r s'] show ?case by simp
next
  case (statistics_raise s ops e s')
  with get_statistics_frame[of ops s _ s' e] show ?case by simp
qed

lemma add_all_populated:
  assumes "\<forall>x\<in>set trs. populated x"
    and "step s + length trs \<le> num_transitions_per_env s"
  shows "\<exists>s'. add_all s trs = Inr s' \<and> step s' = step s + length trs
           \<and> num_transitions_per_env s' = num_transitions_per_env s"
  using assms
proof (induction trs arbitrary: s)
  case Nil
  show ?case by simp
next
  case (Cons x xs)
  from Cons.prems have "populated x" and lt: "step s < num_transitions_per_env s" by simp_all
  then obtain s1 where s1: "add_transitions s x = Inr s1"
    using add_transitions_populated by blast
  note fr = add_transitions_Inr_frame[OF s1]
  from Cons.prems fr have "\<forall>y\<in>set xs. populated y"
    and "step s1 + length xs \<le> num_transitions_per_env s1" by simp_all
  from Cons.IH[OF this] obtain s' where
    "add_all s1 xs = Inr s'" "step s' = step s1 + length xs"
    "num_transitions_per_env s' = num_transitions_per_env s1" by blast
  with s1 fr show ?case by simp
qed

text \<open>
  Claim C4. The step counter of every reachable storage lies between 0 and \<open>T\<close>. A call
  of \<open>add_transitions\<close> that returns has written each field of the transition into slot
  \<open>step\<close> of its buffer (and nowhere else) and has incremented \<open>step\<close> by one. From step
  0, \<open>T\<close> calls with populated transitions all return and leave \<open>step = T\<close>; \<open>clear\<close>
  then resets \<open>step\<close> to 0 and changes nothing else, while one more \<open>add_transitions\<close>
  before the \<open>clear\<close> raises the buffer overflow.
\<close>

theorem storage_step_counter:
  "(reachable s \<longrightarrow> step s \<le> num_transitions_per_env s)
   \<and> (add_transitions s tr = Inr s' \<longrightarrow>
        step s' = step s + 1
        \<and> map_option (\<lambda>v. (observations s)[step s := v]) (tr_observations tr) = Some (observations s')
        \<and> privileged_observations s' =
            (case privileged_observations s of None \<Rightarrow> None
             | Some b \<Rightarrow> map_option (\<lambda>v. b[step s := v]) (tr_critic_observations tr))
        \<and> next_privileged_observations s' =
            (case next_privileged_observations s of None \<Rightarrow> None
             | Some b \<Rightarrow> map_option (\<lambda>v. b[step s := v]) (tr_next_critic_observations tr))
        \<and> map_option (\<lambda>v. (actions s)[step s := v]) (tr_actions tr) = Some (actions s')
        \<and> map_option (\<lambda>v. (rewards s)[step s := v]) (tr_rewards tr) = Some (rewards s')
        \<and> map_option (\<lambda>v. (dones s)[step s := v]) (tr_dones tr) = Some (dones s')
        \<and> map_option (\<lambda>v. (values_buf s)[step s := v]) (tr_values tr) = Some (values_buf s')
        \<and> map_option (\<lambda>v. (actions_log_prob s)[step s := v]) (tr_actions_log_prob tr)
            = Some (actions_log_prob s')
        \<and> map_option (\<lambda>v. (mu s)[step s := v]) (tr_action_mean tr) = Some (mu s')
        \<and> map_option (\<lambda>v. (sigma s)[step s := v]) (tr_action_sigma tr) = Some (sigma s'))
   \<and> (step s0 = 0 \<and> length trs = num_transitions_per_env s0 \<and> (\<forall>x\<in>set trs. populated x) \<longrightarrow>
        (\<exists>sT. add_all s0 trs = Inr sT
           \<and> step sT = num_transitions_per_env s0
           \<and> step (clear sT) = 0
           \<and> (clear sT)\<lparr>step := step sT\<rparr> = sT
           \<and> add_transitions sT tr' = Inl (BufferOverflow, sT)))"
proof (intro conjI impI)
  assume "reachable s"
  then show "step s \<le> num_transitions_per_env s" by (rule reachable_step_le)
next
  assume a: "add_transitions s tr = Inr s'"
  note e = add_transitions_Inr[OF a]
  show "step s' = step s + 1" using e(2) by simp
  show "map_option (\<lambda>v. (observations s)[step s := v]) (tr_observations tr) = Some (observations s')"
    using e(2,3) by auto
  show "privileged_observations s' =
            (case privileged_observations s of None \<Rightarrow> None
             | Some b \<Rightarrow> map_option (\<lambda>v. b[step s := v]) (tr_critic_observations tr))"
    using e(2,11) by (auto split: option.splits)
  show "next_privileged_observations s' =
            (case next_privileged_observations s of None \<Rightarrow> None
             | Some b \<Rightarrow> map_option (\<lambda>v. b[step s := v]) (tr_next_critic_observations tr))"
    using e(2,12) by (auto split: option.splits)
  show "map_option (\<lambda>v. (actions s)[step s := v]) (tr_actions tr) = Some (actions s')"
    using e(2,4) by auto
  show "map_option (\<lambda>v. (rewards s)[step s := v]) (tr_rewards tr) = Some (rewards s')"
    using e(2,5) by auto
  show "map_option (\<lambda>v. (dones s)[step s := v]) (tr_dones tr) = Some (dones s')"
    using e(2,6) by auto
  show "map_option (\<lambda>v. (values_buf s)[step s := v]) (tr_values tr) = Some (values_buf s')"
    using e(2,7) by auto
  show "map_option (\<lambda>v. (actions_log_prob s)[step s := v]) (tr_actions_log_prob tr)
            = Some (actions_log_prob s')"
    using e(2,8) by auto
  show "map_option (\<lambda>v. (mu s)[step s := v]) (tr_action_mean tr) = Some (mu s')"
    using e(2,9) by auto
  show "map_option (\<lambda>v. (sigma s)[step s := v]) (tr_action_sigma tr) = Some (sigma s')"
    using e(2,10) by auto
next
  assume h: "step s0 = 0 \<and> length trs = num_transitions_per_env s0 \<and> (\<forall>x\<in>set trs. populated x)"
  then have "\<forall>x\<in>set trs. populated x" "step s0 + length trs \<le> num_transitions_per_env s0"
    by simp_all
  from add_all_populated[OF this] obtain sT where
    sT: "add_all s0 trs = Inr sT" "step sT = step s0 + length trs"
        "num_transitions_per_env sT = num_transitions_per_env s0" by blast
  have "add_transitions sT tr' = Inl (BufferOverflow, sT)"
    using sT h by (simp add: add_transitions_def)
  with sT h show "\<exists>sT. add_all s0 trs = Inr sT
           \<and> step sT = num_transitions_per_env s0
           \<and> step (clear sT) = 0
           \<and> (clear sT)\<lparr>step := step sT\<rparr> = sT
           \<and> add_transitions sT tr' = Inl (BufferOverflow, sT)"
    by (simp add: clear_def)
qed



theorem storage_step_counter_witness:
  "let s = HIMRolloutStorage_init 1 1 1 (Some 1) 1;
       s' = s\<lparr>observations := [[[1]]], privileged_observations := Some [[[2]]],
               next_privileged_observations := Some [[[9]]], actions := [[[3]]],
               rewards := [[4]], dones := [[True]], values_buf := [[5]],
               actions_log_prob := [[6]], mu := [[[7]]], sigma := [[[8]]], step := 1\<rparr>
   in reachable s \<and> step s \<le> num_transitions_per_env s
      \<and> add_transitions s sample_transition = Inr s' \<and> step s' = step s + 1
      \<and> step s = 0 \<and> length [sample_transition] = num_transitions_per_env s
      \<and> populated sample_transition
      \<and> add_all s [sample_transition] = Inr s'
      \<and> step (clear s') = 0
      \<and> add_transitions s' sample_transition = Inl (BufferOverflow, s')"
proof -
  define s where "s = HIMRolloutStorage_init 1 1 1 (Some 1) 1"
  define s' where "s' = s\<lparr>observations := [[[1]]], privileged_observations := Some [[[2]]],
               next_privileged_observations := Some [[[9]]], actions := [[[3]]],
               rewards := [[4]], dones := [[True]], values_buf := [[5]],
               actions_log_prob := [[6]], mu := [[[7]]], sigma := [[[8]]], step := 1\<rparr>"
  have r: "reachable s" unfolding s_def by (rule reachable.init)
  have a: "add_transitions s sample_transition = Inr s'"
    by (simp add: s_def s'_def add_transitions_def copy_defs sample_transition_def
          HIMRolloutStorage_init_def zeros3_def zeros2_def)
  have h: "step s = 0 \<and> length [sample_transition] = num_transitions_per_env s
      \<and> populated sample_transition"
    by (simp add: s_def HIMRolloutStorage_init_def populated_def sample_transition_def)
  have all: "add_all s [sample_transition] = Inr s'" using a by simp
  from storage_step_counter[of s sample_transition s' s "[sample_transition]" sample_transition]
    r a h all
  have "reachable s \<and> step s \<le> num_transitions_per_env s
      \<and> add_transitions s sample_transition = Inr s' \<and> step s' = step s + 1
      \<and> step s = 0 \<and> length [sample_transition] = num_transitions_per_env s
      \<and> populated sample_transition
      \<and> add_all s [sample_transition] = Inr s'
      \<and> step (clear s') = 0
      \<and> add_transitions s' sample_transition = Inl (BufferOverflow, s')"
    by auto
  then show ?thesis unfolding s_def s'_def Let_def .
qed

subsection \<open>Generalized advantage estimation\<close>
















subsection \<open>Rounding to 32-bit floats\<close>





















subsection \<open>Minibatch index chunks\<close>

lemma slice_chunk: "slice xs (i * n) ((i + 1) * n) = take n (drop (i * n) xs)"
  by (simp add: slice_def)

lemma concat_chunks: "concat (map (\<lambda>i. take n (drop (i * n) xs)) [0..<m]) = take (m * n) xs"
proof (induction m)
  case 0
  show ?case by simp
next
  case (Suc m)
  have "take (m * n) xs @ take n (drop (m * n) xs) = take (m * n + n) xs"
    by (simp add: take_add)
  with Suc show ?case by (simp add: add.commute)
qed

lemma concat_epoch_batch_idx:
  "concat (epoch_batch_idx indices m n) = take (m * n) indices"
  unfolding epoch_batch_idx_def slice_chunk by (rule concat_chunks)

lemma length_epoch_batch_idx: "length (epoch_batch_idx indices m n) = m"
  by (simp add: epoch_batch_idx_def)

lemma chunk_length:
  assumes "length indices = m * n" and "i < m"
  shows "length (epoch_batch_idx indices m n ! i) = n"
proof -
  from assms(2) have "Suc i \<le> m" by simp
  then have "Suc i * n \<le> m * n" by (rule mult_le_mono1)
  then have "i * n + n \<le> length indices" using assms(1) by (simp add: add.commute)
  then have "length (take n (drop (i * n) indices)) = n" by simp
  with assms(2) show ?thesis unfolding epoch_batch_idx_def slice_chunk by simp
qed

lemma mini_batch_indices_eq:
  assumes "0 < m"
  shows "mini_batch_indices randperm s m e g =
           Inr (concat (replicate e
                  (epoch_batch_idx
                     (fst (randperm g (m * (num_envs s * num_transitions_per_env s div m))))
                     m (num_envs s * num_transitions_per_env s div m))),
                snd (randperm g (m * (num_envs s * num_transitions_per_env s div m))))"
  using assms by (simp add: mini_batch_indices_def Let_def map_replicate_const)

lemma distinct_concat_disjoint:
  assumes "distinct (concat xs)" and "i < j" and "j < length xs"
  shows "set (xs ! i) \<inter> set (xs ! j) = {}"
proof -
  from assms have i: "i < length xs" by simp
  have xs: "xs = take i xs @ xs ! i # drop (Suc i) xs" using i by (rule id_take_nth_drop)
  have "distinct (concat (take i xs @ xs ! i # drop (Suc i) xs))" using assms(1) xs by simp
  then have d: "set (xs ! i) \<inter> set (concat (drop (Suc i) xs)) = {}" by auto
  have "xs ! j \<in> set (drop (Suc i) xs)"
  proof -
    have "drop (Suc i) xs ! (j - Suc i) = xs ! j" using assms(2,3) by simp
    moreover have "j - Suc i < length (drop (Suc i) xs)" using assms(2,3) by simp
    ultimately show ?thesis by (metis nth_mem)
  qed
  then have "set (xs ! j) \<subseteq> set (concat (drop (Suc i) xs))" by auto
  with d show ?thesis by blast
qed

lemma length_concat_replicate: "length (concat (replicate e c)) = e * length c"
  by (induction e) simp_all

lemma drop_concat_replicate:
  "drop (k * length c) (concat (replicate (k + j) c)) = concat (replicate j c)"
  by (induction k) simp_all

lemma epoch_of_concat_replicate:
  assumes "length c = m" and "k < e"
  shows "epoch_of (concat (replicate e c)) m k = c"
proof -
  from assms(2) obtain r where "e = Suc (k + r)" using less_imp_Suc_add by blast
  then have e: "e = k + Suc r" by simp
  have "drop (k * length c) (concat (replicate (k + Suc r) c)) = concat (replicate (Suc r) c)"
    by (rule drop_concat_replicate)
  then have "take (length c) (drop (k * length c) (concat (replicate (k + Suc r) c))) = c"
    by simp
  then show ?thesis unfolding epoch_of_def e assms(1)[symmetric] .
qed


lemma permutation_facts:
  assumes "mset xs = mset [0..<n]"
  shows "length xs = n" and "distinct xs" and "set xs = {0..<n}"
proof -
  from assms have "size (mset xs) = size (mset [0..<n])" by simp
  then show "length xs = n" by simp
  from assms have "distinct xs = distinct [0..<n]" by (rule mset_eq_imp_distinct_iff)
  then show "distinct xs" by simp
  from assms have "set xs = set [0..<n]" by (rule mset_eq_setD)
  then show "set xs = {0..<n}" by simp
qed

lemma gather_batch_size: "batch_has_size (gather_batch s critic c) (length c)"
  by (simp add: batch_has_size_def gather_batch_def index_select_def split: option.splits)

lemma critic_buffers_shaped:
  assumes "shaped s"
  shows "\<exists>critic. critic_buffers s = Inr critic"
  using assms by (auto simp: shaped_def critic_buffers_def split: option.splits)

lemma chunks_all_length:
  assumes "length indices = m * n"
  shows "\<forall>c\<in>set (concat (replicate e (epoch_batch_idx indices m n))). length c = n"
proof
  fix c assume "c \<in> set (concat (replicate e (epoch_batch_idx indices m n)))"
  then have "c \<in> set (epoch_batch_idx indices m n)" by (auto split: if_splits)
  then obtain i where "i < length (epoch_batch_idx indices m n)"
    and "epoch_batch_idx indices m n ! i = c" by (auto simp: in_set_conv_nth)
  with chunk_length[OF assms, of i] show "length c = n"
    by (simp add: length_epoch_batch_idx)
qed

lemma generator_run:
  assumes perm: "draws_permutations randperm" and sh: "shaped s" and m: "0 < m"
  shows "\<exists>chunks batches critic g'.
           mini_batch_indices randperm s m e g = Inr (chunks, g')
         \<and> critic_buffers s = Inr critic
         \<and> mini_batch_generator randperm s m e g = Inr (batches, g')
         \<and> g' = snd (randperm g (m * (num_envs s * num_transitions_per_env s div m)))
         \<and> batches = map (gather_batch s critic) chunks
         \<and> length chunks = m * e
         \<and> (\<forall>c\<in>set chunks. length c = num_envs s * num_transitions_per_env s div m)
         \<and> (\<forall>k<e. epoch_of chunks m k
                = epoch_batch_idx
                    (fst (randperm g (m * (num_envs s * num_transitions_per_env s div m))))
                    m (num_envs s * num_transitions_per_env s div m))
         \<and> (\<forall>k<e. concat (epoch_of chunks m k)
                = fst (randperm g (m * (num_envs s * num_transitions_per_env s div m))))
         \<and> mset (fst (randperm g (m * (num_envs s * num_transitions_per_env s div m))))
             = mset [0..<m * (num_envs s * num_transitions_per_env s div m)]"
proof -
  let ?n = "num_envs s * num_transitions_per_env s div m"
  let ?idx = "fst (randperm g (m * ?n))"
  let ?ch = "epoch_batch_idx ?idx m ?n"
  let ?chunks = "concat (replicate e ?ch)"
  let ?g' = "snd (randperm g (m * ?n))"
  from perm have ms: "mset ?idx = mset [0..<m * ?n]" by (simp add: draws_permutations_def)
  then have len: "length ?idx = m * ?n" by (rule permutation_facts(1))
  have ind: "mini_batch_indices randperm s m e g = Inr (?chunks, ?g')"
    using m by (rule mini_batch_indices_eq)
  from critic_buffers_shaped[OF sh] obtain critic where cr: "critic_buffers s = Inr critic" ..
  have gen: "mini_batch_generator randperm s m e g
               = Inr (map (gather_batch s critic) ?chunks, ?g')"
    by (simp add: mini_batch_generator_def ind cr)
  have lc: "length ?chunks = m * e"
    by (simp add: length_concat_replicate length_epoch_batch_idx)
  have ep: "\<forall>k<e. epoch_of ?chunks m k = ?ch"
    using epoch_of_concat_replicate[OF length_epoch_batch_idx] by blast
  have "concat ?ch = ?idx" by (simp add: concat_epoch_batch_idx len)
  with ep have cc: "\<forall>k<e. concat (epoch_of ?chunks m k) = ?idx" by simp
  from ind cr gen lc chunks_all_length[OF len] ep cc ms show ?thesis by blast
qed

lemma rev_draws_permutations: "draws_permutations (\<lambda>(g::nat) n. (rev [0..<n], Suc g))"
  by (simp add: draws_permutations_def)

lemma init_shaped: "shaped (HIMRolloutStorage_init n t d None a)"
  by (simp add: shaped_def has_shape_def HIMRolloutStorage_init_def zeros3_def zeros2_def)

text \<open>
  Claim C5. Let \<open>M > 0\<close> divide \<open>T * N\<close> and let \<open>randperm\<close> return permutations. Then
  \<open>mini_batch_generator(M, E)\<close> yields exactly \<open>M * E\<close> minibatches, every tensor of
  each with \<open>(T * N) / M\<close> rows, and in every epoch the \<open>M\<close> index chunks are pairwise
  disjoint and together hold each of the \<open>T * N\<close> flattened indices exactly once.
\<close>

theorem mini_batch_generator_partition:
  assumes "draws_permutations randperm" and "shaped s" and "0 < M"
    and "M dvd num_envs s * num_transitions_per_env s"
  shows "\<exists>chunks batches critic g'.
           mini_batch_indices randperm s M E g = Inr (chunks, g')
         \<and> critic_buffers s = Inr critic
         \<and> mini_batch_generator randperm s M E g = Inr (batches, g')
         \<and> batches = map (gather_batch s critic) chunks
         \<and> length batches = M * E
         \<and> (\<forall>b\<in>set batches. batch_has_size b (num_envs s * num_transitions_per_env s div M))
         \<and> (\<forall>e<E. length (epoch_of chunks M e) = M
               \<and> mset (concat (epoch_of chunks M e))
                   = mset [0..<num_envs s * num_transitions_per_env s]
               \<and> distinct (concat (epoch_of chunks M e))
               \<and> set (concat (epoch_of chunks M e)) = {0..<num_envs s * num_transitions_per_env s}
               \<and> (\<forall>i j. i < j \<and> j < M \<longrightarrow>
                     set (epoch_of chunks M e ! i) \<inter> set (epoch_of chunks M e ! j) = {}))"
proof -
  let ?B = "num_envs s * num_transitions_per_env s"
  let ?n = "?B div M"
  let ?idx = "fst (randperm g (M * ?n))"
  from assms(4) have full: "M * ?n = ?B" by simp
  from generator_run[OF assms(1,2,3), of E g] obtain chunks batches critic g' where
    ind: "mini_batch_indices randperm s M E g = Inr (chunks, g')"
    and cr: "critic_buffers s = Inr critic"
    and gen: "mini_batch_generator randperm s M E g = Inr (batches, g')"
    and bs: "batches = map (gather_batch s critic) chunks"
    and lc: "length chunks = M * E"
    and cl: "\<forall>c\<in>set chunks. length c = ?n"
    and ep: "\<forall>k<E. epoch_of chunks M k = epoch_batch_idx ?idx M ?n"
    and cc: "\<forall>k<E. concat (epoch_of chunks M k) = ?idx"
    and ms: "mset ?idx = mset [0..<M * ?n]"
    by blast
  from ms full have ms': "mset ?idx = mset [0..<?B]" by simp
  note pf = permutation_facts[OF ms']
  have lb: "length batches = M * E" by (simp add: bs lc)
  have sz: "\<forall>b\<in>set batches. batch_has_size b ?n"
  proof
    fix b assume "b \<in> set batches"
    then obtain c where "c \<in> set chunks" and "b = gather_batch s critic c"
      by (auto simp: bs)
    with cl gather_batch_size[of s critic c] show "batch_has_size b ?n" by simp
  qed
  have epochs: "\<forall>e<E. length (epoch_of chunks M e) = M
               \<and> mset (concat (epoch_of chunks M e)) = mset [0..<?B]
               \<and> distinct (concat (epoch_of chunks M e))
               \<and> set (concat (epoch_of chunks M e)) = {0..<?B}
               \<and> (\<forall>i j. i < j \<and> j < M \<longrightarrow>
                     set (epoch_of chunks M e ! i) \<inter> set (epoch_of chunks M e ! j) = {})"
  proof (intro allI impI)
    fix e assume e: "e < E"
    from ep e have eq: "epoch_of chunks M e = epoch_batch_idx ?idx M ?n" by simp
    from cc e have c: "concat (epoch_of chunks M e) = ?idx" by simp
    have l: "length (epoch_of chunks M e) = M" by (simp add: eq length_epoch_batch_idx)
    have d: "distinct (concat (epoch_of chunks M e))" using c pf(2) by simp
    have dj: "\<forall>i j. i < j \<and> j < M \<longrightarrow>
                set (epoch_of chunks M e ! i) \<inter> set (epoch_of chunks M e ! j) = {}"
      using distinct_concat_disjoint[OF d] l by simp
    from l c ms' d pf(3) dj
    show "length (epoch_of chunks M e) = M
               \<and> mset (concat (epoch_of chunks M e)) = mset [0..<?B]
               \<and> distinct (concat (epoch_of chunks M e))
               \<and> set (concat (epoch_of chunks M e)) = {0..<?B}
               \<and> (\<forall>i j. i < j \<and> j < M \<longrightarrow>
                     set (epoch_of chunks M e ! i) \<inter> set (epoch_of chunks M e ! j) = {})"
      by simp
  qed
  from ind cr gen bs lb sz epochs show ?thesis by blast
qed

theorem mini_batch_generator_partition_witness:
  "draws_permutations (\<lambda>(g::nat) n. (rev [0..<n], Suc g))
   \<and> shaped (HIMRolloutStorage_init 2 2 1 None 1)
   \<and> (0::nat) < 2
   \<and> (2::nat) dvd num_envs (HIMRolloutStorage_init 2 2 1 None 1)
                  * num_transitions_per_env (HIMRolloutStorage_init 2 2 1 None 1)
   \<and> (\<exists>batches g'.
         mini_batch_generator (\<lambda>(g::nat) n. (rev [0..<n], Suc g))
           (HIMRolloutStorage_init 2 2 1 None 1) 2 3 0 = Inr (batches, g')
         \<and> length batches = 2 * 3)"
proof -
  have h1: "draws_permutations (\<lambda>(g::nat) n. (rev [0..<n], Suc g))"
    by (rule rev_draws_permutations)
  have h2: "shaped (HIMRolloutStorage_init 2 2 1 None 1)" by (rule init_shaped)
  have h3: "(0::nat) < 2" by simp
  have h4: "(2::nat) dvd num_envs (HIMRolloutStorage_init 2 2 1 None 1)
                  * num_transitions_per_env (HIMRolloutStorage_init 2 2 1 None 1)"
    by (simp add: HIMRolloutStorage_init_def)
  from mini_batch_generator_partition[OF h1 h2 h3 h4, of 3 0]
  have "\<exists>batches g'.
         mini_batch_generator (\<lambda>(g::nat) n. (rev [0..<n], Suc g))
           (HIMRolloutStorage_init 2 2 1 None 1) 2 3 0 = Inr (batches, g')
         \<and> length batches = 2 * 3"
    by blast
  with h1 h2 h3 h4 show ?thesis by blast
qed

lemma upt_0_2: "[0..<2] = [0, Suc 0]"
  by (simp add: upt_rec)

lemma upt_1_2: "[Suc 0..<2] = [Suc 0]"
  by (simp add: upt_rec)

text \<open>
  Claim C6, as amended. When \<open>num_mini_batches = M > 0\<close> does not divide \<open>T * N\<close> the
  generator does not fail. For every \<open>M > 0\<close> it yields \<open>M * E\<close> minibatches of
  \<open>(T * N) div M\<close> rows, and the indices of each epoch are a permutation of the first
  \<open>T * N - (T * N) mod M\<close> flattened indices: the last \<open>(T * N) mod M\<close> samples are in
  no minibatch. The only failure of the setup is the division by zero for \<open>M = 0\<close>.
\<close>

theorem mini_batch_generator_truncates:
  assumes "draws_permutations randperm" and "shaped s"
  shows "mini_batch_generator randperm s 0 E g = Inl ZeroDivisionError
       \<and> (0 < M \<longrightarrow>
            (\<exists>chunks batches critic g'.
               mini_batch_indices randperm s M E g = Inr (chunks, g')
             \<and> critic_buffers s = Inr critic
             \<and> mini_batch_generator randperm s M E g = Inr (batches, g')
             \<and> batches = map (gather_batch s critic) chunks
             \<and> length batches = M * E
             \<and> (\<forall>b\<in>set batches.
                    batch_has_size b (num_envs s * num_transitions_per_env s div M))
             \<and> (\<forall>e<E. mset (concat (epoch_of chunks M e))
                    = mset [0..<num_envs s * num_transitions_per_env s
                                  - num_envs s * num_transitions_per_env s mod M])))"
proof (intro conjI impI)
  show "mini_batch_generator randperm s 0 E g = Inl ZeroDivisionError"
    by (simp add: mini_batch_generator_def mini_batch_indices_def)
next
  assume m: "0 < M"
  let ?B = "num_envs s * num_transitions_per_env s"
  let ?n = "?B div M"
  let ?idx = "fst (randperm g (M * ?n))"
  have trunc: "M * ?n = ?B - ?B mod M" by (simp add: minus_mod_eq_mult_div)
  from generator_run[OF assms m, of E g] obtain chunks batches critic g' where
    ind: "mini_batch_indices randperm s M E g = Inr (chunks, g')"
    and cr: "critic_buffers s = Inr critic"
    and gen: "mini_batch_generator randperm s M E g = Inr (batches, g')"
    and bs: "batches = map (gather_batch s critic) chunks"
    and lc: "length chunks = M * E"
    and cl: "\<forall>c\<in>set chunks. length c = ?n"
    and cc: "\<forall>k<E. concat (epoch_of chunks M k) = ?idx"
    and ms: "mset ?idx = mset [0..<M * ?n]"
    by blast
  have lb: "length batches = M * E" by (simp add: bs lc)
  have sz: "\<forall>b\<in>set batches. batch_has_size b ?n"
  proof
    fix b assume "b \<in> set batches"
    then obtain c where "c \<in> set chunks" and "b = gather_batch s critic c"
      by (auto simp: bs)
    with cl gather_batch_size[of s critic c] show "batch_has_size b ?n" by simp
  qed
  from cc ms trunc have epochs:
    "\<forall>e<E. mset (concat (epoch_of chunks M e)) = mset [0..<?B - ?B mod M]" by simp
  from ind cr gen bs lb sz epochs
  show "\<exists>chunks batches critic g'.
               mini_batch_indices randperm s M E g = Inr (chunks, g')
             \<and> critic_buffers s = Inr critic
             \<and> mini_batch_generator randperm s M E g = Inr (batches, g')
             \<and> batches = map (gather_batch s critic) chunks
             \<and> length batches = M * E
             \<and> (\<forall>b\<in>set batches. batch_has_size b ?n)
             \<and> (\<forall>e<E. mset (concat (epoch_of chunks M e)) = mset [0..<?B - ?B mod M])"
    by blast
qed

theorem mini_batch_generator_truncates_witness:
  "draws_permutations (\<lambda>(g::nat) n. (rev [0..<n], Suc g))
   \<and> shaped (HIMRolloutStorage_init 3 1 1 None 1)
   \<and> (0::nat) < 2
   \<and> (\<exists>batches g'.
         mini_batch_generator (\<lambda>(g::nat) n. (rev [0..<n], Suc g))
           (HIMRolloutStorage_init 3 1 1 None 1) 2 1 0 = Inr (batches, g')
         \<and> length batches = 2 * 1)"
proof -
  have h1: "draws_permutations (\<lambda>(g::nat) n. (rev [0..<n], Suc g))"
    by (rule rev_draws_permutations)
  have h2: "shaped (HIMRolloutStorage_init 3 1 1 None 1)" by (rule init_shaped)
  have h3: "(0::nat) < 2" by simp
  from mini_batch_generator_truncates[OF h1 h2, of 1 0 2, THEN conjunct2] h3
  have "\<exists>batches g'.
         mini_batch_generator (\<lambda>(g::nat) n. (rev [0..<n], Suc g))
           (HIMRolloutStorage_init 3 1 1 None 1) 2 1 0 = Inr (batches, g')
         \<and> length batches = 2 * 1"
    by blast
  with h1 h2 h3 show ?thesis by blast
qed

text \<open>
  The claim as first stated fails: with three samples and two minibatches the generator
  yields two minibatches of one sample each.
\<close>

theorem mini_batch_generator_indivisible_counterexample:
  "\<not> (2::nat) dvd num_envs (HIMRolloutStorage_init 3 1 1 None 1)
                    * num_transitions_per_env (HIMRolloutStorage_init 3 1 1 None 1)
   \<and> mini_batch_generator (\<lambda>(g::nat) n. ([0..<n], Suc g))
       (HIMRolloutStorage_init 3 1 1 None 1) 2 1 0
     = Inr (map (gather_batch (HIMRolloutStorage_init 3 1 1 None 1)
                   (observations (HIMRolloutStorage_init 3 1 1 None 1),
                    observations (HIMRolloutStorage_init 3 1 1 None 1)))
              [[0], [1]],
            1)"
proof -
  let ?s = "HIMRolloutStorage_init 3 1 1 None 1"
  have b: "num_envs ?s * num_transitions_per_env ?s = 3"
    by (simp add: HIMRolloutStorage_init_def)
  have d: "(3::nat) div 2 = 1" by simp
  have e: "epoch_batch_idx [0, Suc 0] 2 (Suc 0) = [[0], [Suc 0]]"
    by (simp add: epoch_batch_idx_def slice_def upt_0_2)
  have i: "mini_batch_indices (\<lambda>(g::nat) n. ([0..<n], Suc g)) ?s 2 1 0
             = Inr ([[0], [1]], 1)"
    unfolding mini_batch_indices_def Let_def b d by (simp add: upt_0_2 e)
  have c: "critic_buffers ?s = Inr (observations ?s, observations ?s)"
    by (simp add: critic_buffers_def HIMRolloutStorage_init_def)
  have "mini_batch_generator (\<lambda>(g::nat) n. ([0..<n], Suc g)) ?s 2 1 0
     = Inr (map (gather_batch ?s (observations ?s, observations ?s)) [[0], [1]], 1)"
    unfolding mini_batch_generator_def i c by simp
  moreover have "\<not> (2::nat) dvd num_envs ?s * num_transitions_per_env ?s"
    unfolding b by simp
  ultimately show ?thesis by simp
qed

lemma epochs_repeat:
  "\<forall>k<e. epoch_of (concat (replicate e (epoch_batch_idx indices m n))) m k
            = epoch_batch_idx indices m n"
proof (intro allI impI)
  fix k assume "k < e"
  with length_epoch_batch_idx[of indices m n]
  show "epoch_of (concat (replicate e (epoch_batch_idx indices m n))) m k
          = epoch_batch_idx indices m n"
    by (rule epoch_of_concat_replicate)
qed

text \<open>
  Claim C2, as amended. \<open>mini_batch_generator(M, E)\<close> draws exactly one random
  permutation per call, before the loop over the epochs: the generator state after the
  call is the state after that single draw, and every one of the \<open>E\<close> epochs goes
  through the same \<open>M\<close> chunks of that permutation, in the same order. A new call draws
  again, from the state the previous call left: the generator is not restartable.
\<close>

theorem mini_batch_generator_one_permutation:
  assumes "0 < M"
  shows "\<exists>chunks chunks'.
           mini_batch_indices randperm s M E g
             = Inr (chunks,
                    snd (randperm g (M * (num_envs s * num_transitions_per_env s div M))))
         \<and> length chunks = M * E
         \<and> (\<forall>e<E. epoch_of chunks M e
               = epoch_batch_idx
                   (fst (randperm g (M * (num_envs s * num_transitions_per_env s div M))))
                   M (num_envs s * num_transitions_per_env s div M))
         \<and> (\<forall>e<E. \<forall>e'<E. epoch_of chunks M e = epoch_of chunks M e')
         \<and> mini_batch_indices randperm s M E
               (snd (randperm g (M * (num_envs s * num_transitions_per_env s div M))))
             = Inr (chunks',
                    snd (randperm
                           (snd (randperm g (M * (num_envs s * num_transitions_per_env s div M))))
                           (M * (num_envs s * num_transitions_per_env s div M))))
         \<and> (\<forall>e<E. epoch_of chunks' M e
               = epoch_batch_idx
                   (fst (randperm
                           (snd (randperm g (M * (num_envs s * num_transitions_per_env s div M))))
                           (M * (num_envs s * num_transitions_per_env s div M))))
                   M (num_envs s * num_transitions_per_env s div M))"
proof -
  let ?n = "num_envs s * num_transitions_per_env s div M"
  let ?g' = "snd (randperm g (M * ?n))"
  let ?ch = "\<lambda>h. epoch_batch_idx (fst (randperm h (M * ?n))) M ?n"
  let ?c = "\<lambda>h. concat (replicate E (?ch h))"
  have a1: "mini_batch_indices randperm s M E g = Inr (?c g, ?g')"
    using assms by (rule mini_batch_indices_eq)
  have a2: "\<forall>e<E. epoch_of (?c g) M e = ?ch g" by (rule epochs_repeat)
  have b1: "mini_batch_indices randperm s M E ?g' = Inr (?c ?g', snd (randperm ?g' (M * ?n)))"
    using assms by (rule mini_batch_indices_eq)
  have b2: "\<forall>e<E. epoch_of (?c ?g') M e = ?ch ?g'" by (rule epochs_repeat)
  have l: "length (?c g) = M * E"
    by (simp add: length_concat_replicate length_epoch_batch_idx)
  from a2 have same: "\<forall>e<E. \<forall>e'<E. epoch_of (?c g) M e = epoch_of (?c g) M e'" by simp
  from a1 l a2 same b1 b2
  have "mini_batch_indices randperm s M E g = Inr (?c g, ?g')
         \<and> length (?c g) = M * E
         \<and> (\<forall>e<E. epoch_of (?c g) M e = ?ch g)
         \<and> (\<forall>e<E. \<forall>e'<E. epoch_of (?c g) M e = epoch_of (?c g) M e')
         \<and> mini_batch_indices randperm s M E ?g' = Inr (?c ?g', snd (randperm ?g' (M * ?n)))
         \<and> (\<forall>e<E. epoch_of (?c ?g') M e = ?ch ?g')"
    by (intro conjI)
  then show ?thesis by (intro exI)
qed

theorem mini_batch_generator_one_permutation_witness:
  "(0::nat) < 2
   \<and> (\<exists>chunks.
         mini_batch_indices (\<lambda>(g::nat) n. (if even g then [0..<n] else rev [0..<n], Suc g))
           (HIMRolloutStorage_init 2 2 1 None 1) 2 2 0 = Inr (chunks, Suc 0)
         \<and> epoch_of chunks 2 0 = epoch_of chunks 2 1)"
proof -
  let ?rp = "\<lambda>(g::nat) n. (if even g then [0..<n] else rev [0..<n], Suc g)"
  let ?s = "HIMRolloutStorage_init 2 2 1 None 1"
  have h: "(0::nat) < 2" by simp
  from mini_batch_generator_one_permutation[OF h, of ?rp ?s 2 0]
  obtain chunks where
    c: "mini_batch_indices ?rp ?s 2 2 0
          = Inr (chunks, snd (?rp 0 (2 * (num_envs ?s * num_transitions_per_env ?s div 2))))"
    and e: "\<forall>e<2. \<forall>e'<2. epoch_of chunks 2 e = epoch_of chunks 2 e'"
    by (elim exE conjE) (rule that)
  from e have "epoch_of chunks 2 0 = epoch_of chunks 2 1" by simp
  moreover from c have "mini_batch_indices ?rp ?s 2 2 0 = Inr (chunks, Suc 0)" by simp
  ultimately have "\<exists>chunks.
         mini_batch_indices ?rp ?s 2 2 0 = Inr (chunks, Suc 0)
         \<and> epoch_of chunks 2 0 = epoch_of chunks 2 1"
    by (intro exI conjI)
  with h show ?thesis by (intro conjI)
qed

text \<open>
  The claim as first stated fails: with a random source whose successive draws differ,
  the two epochs of one call use the same permutation and the source advances once,
  where a fresh permutation per epoch gives a different second epoch and advances twice.
\<close>

theorem mini_batch_generator_fresh_permutation_counterexample:
  "mini_batch_indices (\<lambda>(g::nat) n. (if even g then [0..<n] else rev [0..<n], Suc g))
     (HIMRolloutStorage_init 2 1 1 None 1) 1 2 0
     = Inr ([[0, 1], [0, 1]], 1)
   \<and> mini_batch_indices_spec (\<lambda>(g::nat) n. (if even g then [0..<n] else rev [0..<n], Suc g))
       (HIMRolloutStorage_init 2 1 1 None 1) 1 2 0
     = ([[0, 1], [1, 0]], 2)"
proof -
  let ?rp = "\<lambda>(g::nat) n. (if even g then [0..<n] else rev [0..<n], Suc g)"
  let ?s = "HIMRolloutStorage_init 2 1 1 None 1"
  have b: "num_envs ?s * num_transitions_per_env ?s = 2"
    by (simp add: HIMRolloutStorage_init_def)
  have e: "epoch_batch_idx xs (Suc 0) 2 = [take 2 xs]" for xs :: "nat list"
    by (simp add: epoch_batch_idx_def slice_def)
  have code: "mini_batch_indices ?rp ?s 1 2 0 = Inr ([[0, 1], [0, 1]], 1)"
    unfolding mini_batch_indices_def Let_def b by (simp add: upt_0_2 e)
  have "fresh_epochs ?rp 2 (Suc 0) (Suc (Suc 0)) 0 = ([[0, Suc 0], [Suc 0, 0]], Suc (Suc 0))"
    by (simp add: upt_0_2 e Let_def)
  then have "fresh_epochs ?rp 2 1 2 0 = ([[0, 1], [1, 0]], 2)"
    by (simp only: numeral_2_eq_2 One_nat_def)
  then have spec: "mini_batch_indices_spec ?rp ?s 1 2 0 = ([[0, 1], [1, 0]], 2)"
    unfolding mini_batch_indices_spec_def b .
  from code spec show ?thesis by (intro conjI)
qed

subsection \<open>Recording an environment step\<close>

lemma bootstrap_no_time_outs:
  "infos ''time_outs'' = None \<Longrightarrow> bootstrap_time_outs g infos tr = Inr tr"
  by (simp add: bootstrap_time_outs_def)

lemma bootstrap_with_time_outs:
  assumes "infos ''time_outs'' = Some tos" and "tr_values tr = Some v"
    and "tr_rewards tr = Some r"
  shows "bootstrap_time_outs g infos tr
           = Inr (tr\<lparr>tr_rewards :=
                     Some (map (\<lambda>x. fst x + g * (fst (snd x) * (if snd (snd x) then 1 else 0)))
                             (zip r (zip v tos)))\<rparr>)"
  using assms by (simp add: bootstrap_time_outs_def)

lemma bootstrapped_nth:
  assumes "length v = length r" and "length tos = length r" and "i < length r"
  shows "map (\<lambda>x. fst x + g * (fst (snd x) * (if snd (snd x) then 1 else 0)))
           (zip r (zip v tos)) ! i
         = (if tos ! i then r ! i + g * v ! i else (r ! i :: real))"
  using assms by simp

lemma acted_populated:
  assumes "acted tr"
  shows "populated (tr\<lparr>tr_next_critic_observations := Some nco, tr_rewards := Some r,
                        tr_dones := Some d\<rparr>)"
  using assms by (simp add: acted_def populated_def)

text \<open>
  Claim C7. Take a call of \<open>process_env_step\<close> after \<open>act\<close>, on a buffer that is not
  full. The reward recorded for environment \<open>i\<close> is the environment reward plus
  \<open>gamma\<close> times the stored value estimate where \<open>infos\<close> carries \<open>time_outs\<close> and
  environment \<open>i\<close> timed out; it is the environment reward unchanged where the
  environment did not time out, and for every environment when \<open>infos\<close> carries no
  \<open>time_outs\<close>. The transition with these rewards is written to slot \<open>step\<close> of the
  storage, whose step counter advances, and the optimizer's transition is cleared.
\<close>

theorem process_env_step_bootstrap:
  assumes "ppo_storage p = Some st"
    and "step st < num_transitions_per_env st"
    and "acted (ppo_transition p)"
    and "tr_values (ppo_transition p) = Some v"
    and "length v = length rewards_in"
    and "\<forall>tos. infos ''time_outs'' = Some tos \<longrightarrow> length tos = length rewards_in"
  shows "\<exists>st' recorded.
           process_env_step p rewards_in dones_in infos next_critic_obs
             = Inr (p\<lparr>ppo_transition := Transition_init, ppo_storage := Some st'\<rparr>)
         \<and> add_transitions st
               ((ppo_transition p)
                  \<lparr>tr_next_critic_observations := Some next_critic_obs,
                   tr_rewards := Some recorded, tr_dones := Some dones_in\<rparr>) = Inr st'
         \<and> step st' = step st + 1
         \<and> rewards st' = (rewards st)[step st := recorded]
         \<and> length recorded = length rewards_in
         \<and> (\<forall>i<length rewards_in.
               recorded ! i =
                 (case infos ''time_outs'' of
                    None \<Rightarrow> rewards_in ! i
                  | Some tos \<Rightarrow>
                      if tos ! i then rewards_in ! i + gamma p * v ! i else rewards_in ! i))"
proof -
  let ?tr1 = "(ppo_transition p)
                \<lparr>tr_next_critic_observations := Some next_critic_obs,
                 tr_rewards := Some rewards_in, tr_dones := Some dones_in\<rparr>"
  let ?f = "\<lambda>x. fst x + gamma p * (fst (snd x) * (if snd (snd x) then 1 else 0))"
  define recorded where
    "recorded = (case infos ''time_outs'' of
                   None \<Rightarrow> rewards_in
                 | Some tos \<Rightarrow> map ?f (zip rewards_in (zip v tos)))"
  let ?tr2 = "(ppo_transition p)
                \<lparr>tr_next_critic_observations := Some next_critic_obs,
                 tr_rewards := Some recorded, tr_dones := Some dones_in\<rparr>"
  have v1: "tr_values ?tr1 = Some v" and r1: "tr_rewards ?tr1 = Some rewards_in"
    using assms(4) by simp_all
  have boot: "bootstrap_time_outs (gamma p) infos ?tr1 = Inr ?tr2"
  proof (cases "infos ''time_outs''")
    case None
    then show ?thesis by (simp add: bootstrap_no_time_outs recorded_def)
  next
    case (Some tos)
    from bootstrap_with_time_outs[of infos tos ?tr1 v rewards_in "gamma p", OF Some v1 r1] Some
    show ?thesis by (simp add: recorded_def)
  qed
  have pop: "populated ?tr2" using assms(3) by (rule acted_populated)
  from add_transitions_populated[OF pop assms(2)] obtain st' where
    add: "add_transitions st ?tr2 = Inr st'" ..
  note eff = add_transitions_Inr(2)[OF add]
  have run: "process_env_step p rewards_in dones_in infos next_critic_obs
               = Inr (p\<lparr>ppo_transition := Transition_init, ppo_storage := Some st'\<rparr>)"
    by (simp add: process_env_step_def Let_def boot assms(1) add Transition_clear_def)
  have st: "step st' = step st + 1" using eff by simp
  have rw: "rewards st' = (rewards st)[step st := recorded]" using eff by simp
  have len: "length recorded = length rewards_in"
    using assms(5,6) by (simp add: recorded_def split: option.splits)
  have val: "\<forall>i<length rewards_in.
               recorded ! i =
                 (case infos ''time_outs'' of
                    None \<Rightarrow> rewards_in ! i
                  | Some tos \<Rightarrow>
                      if tos ! i then rewards_in ! i + gamma p * v ! i else rewards_in ! i)"
  proof (intro allI impI)
    fix i assume i: "i < length rewards_in"
    show "recorded ! i =
                 (case infos ''time_outs'' of
                    None \<Rightarrow> rewards_in ! i
                  | Some tos \<Rightarrow>
                      if tos ! i then rewards_in ! i + gamma p * v ! i else rewards_in ! i)"
    proof (cases "infos ''time_outs''")
      case None
      then show ?thesis by (simp add: recorded_def)
    next
      case (Some tos)
      with assms(6) have lt: "length tos = length rewards_in" by simp
      from bootstrapped_nth[OF assms(5) lt i, of "gamma p"] Some
      show ?thesis by (simp add: recorded_def)
    qed
  qed
  from run add st rw len val
  have "process_env_step p rewards_in dones_in infos next_critic_obs
             = Inr (p\<lparr>ppo_transition := Transition_init, ppo_storage := Some st'\<rparr>)
         \<and> add_transitions st ?tr2 = Inr st'
         \<and> step st' = step st + 1
         \<and> rewards st' = (rewards st)[step st := recorded]
         \<and> length recorded = length rewards_in
         \<and> (\<forall>i<length rewards_in.
               recorded ! i =
                 (case infos ''time_outs'' of
                    None \<Rightarrow> rewards_in ! i
                  | Some tos \<Rightarrow>
                      if tos ! i then rewards_in ! i + gamma p * v ! i else rewards_in ! i))"
    by (intro conjI)
  then show ?thesis by (intro exI)
qed

theorem process_env_step_bootstrap_witness:
  "ppo_storage sample_ppo = Some (HIMRolloutStorage_init 2 2 3 None 2)
   \<and> step (HIMRolloutStorage_init 2 2 3 None 2)
       < num_transitions_per_env (HIMRolloutStorage_init 2 2 3 None 2)
   \<and> acted (ppo_transition sample_ppo)
   \<and> tr_values (ppo_transition sample_ppo) = Some [10, 20]
   \<and> (\<exists>st'. process_env_step sample_ppo [1, 2] [False, True]
                 [''time_outs'' \<mapsto> [True, False]] [[7, 8, 9], [7, 8, 9]]
               = Inr (sample_ppo\<lparr>ppo_transition := Transition_init, ppo_storage := Some st'\<rparr>)
             \<and> step st' = 1
             \<and> rewards st' = [[109 / 10, 2], [0, 0]])"
proof -
  let ?st = "HIMRolloutStorage_init 2 2 3 None 2"
  let ?infos = "[''time_outs'' \<mapsto> [True, False]]"
  have h1: "ppo_storage sample_ppo = Some ?st" by (simp add: sample_ppo_def)
  have h2: "step ?st < num_transitions_per_env ?st" by (simp add: HIMRolloutStorage_init_def)
  have h3: "acted (ppo_transition sample_ppo)" by (simp add: sample_ppo_def acted_def)
  have h4: "tr_values (ppo_transition sample_ppo) = Some [10, 20]" by (simp add: sample_ppo_def)
  have h5: "length [10, 20 :: real] = length [1, 2 :: real]" by simp
  have h6: "\<forall>tos. ?infos ''time_outs'' = Some tos \<longrightarrow> length tos = length [1, 2 :: real]"
    by simp
  from process_env_step_bootstrap
         [where infos = ?infos and dones_in = "[False, True]"
            and next_critic_obs = "[[7, 8, 9], [7, 8, 9]]", OF h1 h2 h3 h4 h5 h6]
  obtain st' recorded where
    run: "process_env_step sample_ppo [1, 2] [False, True] ?infos [[7, 8, 9], [7, 8, 9]]
            = Inr (sample_ppo\<lparr>ppo_transition := Transition_init, ppo_storage := Some st'\<rparr>)"
    and st: "step st' = step ?st + 1"
    and rw: "rewards st' = (rewards ?st)[step ?st := recorded]"
    and len: "length recorded = length [1, 2 :: real]"
    and val: "\<forall>i<length [1, 2 :: real].
               recorded ! i =
                 (case ?infos ''time_outs'' of
                    None \<Rightarrow> [1, 2] ! i
                  | Some tos \<Rightarrow>
                      if tos ! i then [1, 2] ! i + gamma sample_ppo * [10, 20] ! i
                      else [1, 2] ! i)"
    by (elim exE conjE) (rule that)
  from val have "recorded ! 0 = 1 + gamma sample_ppo * 10" by simp
  then have r0: "recorded ! 0 = 109 / 10" by (simp add: sample_ppo_def)
  from val have r1: "recorded ! 1 = 2" by simp
  from len obtain a b where ab: "recorded = [a, b]"
    by (cases recorded; cases "tl recorded") auto
  with r0 r1 have rec: "recorded = [109 / 10, 2]" by simp
  from st have s1: "step st' = 1" by (simp add: HIMRolloutStorage_init_def)
  from rw rec have rws: "rewards st' = [[109 / 10, 2], [0, 0]]"
    by (simp add: HIMRolloutStorage_init_def zeros2_def numeral_2_eq_2)
  from run s1 rws
  have "\<exists>st'. process_env_step sample_ppo [1, 2] [False, True] ?infos [[7, 8, 9], [7, 8, 9]]
               = Inr (sample_ppo\<lparr>ppo_transition := Transition_init, ppo_storage := Some st'\<rparr>)
             \<and> step st' = 1
             \<and> rewards st' = [[109 / 10, 2], [0, 0]]"
    by (intro exI conjI)
  with h1 h2 h3 h4 show ?thesis by (intro conjI)
qed

subsection \<open>The adaptive learning rate\<close>

lemma kl_schedule_unfold:
  assumes "desired_kl p = Some d" and "schedule p = ''adaptive''"
  shows "kl_schedule p kl_mean
           = p\<lparr>learning_rate := adapt_learning_rate d (learning_rate p) kl_mean,
               optimizer_lr := map (\<lambda>_. adapt_learning_rate d (learning_rate p) kl_mean)
                                 (optimizer_lr p)\<rparr>"
  using assms by (simp add: kl_schedule_def Let_def)

text \<open>
  Claim C8, as amended. With the adaptive schedule and a desired KL \<open>d\<close>, for every
  minibatch: if the batch-mean KL estimate exceeds \<open>2 * d\<close> the learning rate is divided
  by 1.5 and clamped below at \<open>1e-5\<close>; if the estimate is below \<open>d / 2\<close> and strictly
  positive the rate is multiplied by 1.5 and clamped above at \<open>1e-2\<close>; otherwise the rate
  is unchanged. The adjusted rate is written to every parameter group of the optimizer,
  and the estimator's update and the gradient step of the same minibatch run with it.
\<close>

theorem kl_schedule_adaptive:
  assumes "desired_kl p = Some d" and "schedule p = ''adaptive''"
  shows "(kl_mean > 2 * d \<longrightarrow>
            learning_rate (kl_schedule p kl_mean) = max (1 / 10 ^ 5) (learning_rate p / (3 / 2))
            \<and> 1 / 10 ^ 5 \<le> learning_rate (kl_schedule p kl_mean))
       \<and> (0 < kl_mean \<and> kl_mean < d / 2 \<longrightarrow>
            learning_rate (kl_schedule p kl_mean) = min (1 / 10 ^ 2) (learning_rate p * (3 / 2))
            \<and> learning_rate (kl_schedule p kl_mean) \<le> 1 / 10 ^ 2)
       \<and> (\<not> kl_mean > 2 * d \<and> \<not> (0 < kl_mean \<and> kl_mean < d / 2) \<longrightarrow>
            learning_rate (kl_schedule p kl_mean) = learning_rate p)
       \<and> optimizer_lr (kl_schedule p kl_mean)
           = map (\<lambda>_. learning_rate (kl_schedule p kl_mean)) (optimizer_lr p)
       \<and> learning_rate (fst (update_body ops batch (p, acc)))
           = learning_rate (kl_schedule p (forward_kl ops (actor_critic p) batch))
       \<and> actor_critic (fst (update_body ops batch (p, acc)))
           = fst (ppo_step ops (actor_critic p)
                    (fst (estimator_update ops (actor_critic p) batch
                            (learning_rate (kl_schedule p (forward_kl ops (actor_critic p) batch)))))
                    batch
                    (optimizer_lr (kl_schedule p (forward_kl ops (actor_critic p) batch))))"
proof -
  note eq = kl_schedule_unfold[OF assms]
  have lr: "learning_rate (kl_schedule p kl_mean) = adapt_learning_rate d (learning_rate p) kl_mean"
    by (simp add: eq)
  have a: "kl_mean > 2 * d \<longrightarrow>
            learning_rate (kl_schedule p kl_mean) = max (1 / 10 ^ 5) (learning_rate p / (3 / 2))
            \<and> 1 / 10 ^ 5 \<le> learning_rate (kl_schedule p kl_mean)"
    by (simp add: lr adapt_learning_rate_def mult.commute)
  have b: "0 < kl_mean \<and> kl_mean < d / 2 \<longrightarrow>
            learning_rate (kl_schedule p kl_mean) = min (1 / 10 ^ 2) (learning_rate p * (3 / 2))
            \<and> learning_rate (kl_schedule p kl_mean) \<le> 1 / 10 ^ 2"
  proof
    assume h: "0 < kl_mean \<and> kl_mean < d / 2"
    then have "\<not> kl_mean > d * 2" by linarith
    with h show "learning_rate (kl_schedule p kl_mean)
                   = min (1 / 10 ^ 2) (learning_rate p * (3 / 2))
            \<and> learning_rate (kl_schedule p kl_mean) \<le> 1 / 10 ^ 2"
      by (simp add: lr adapt_learning_rate_def)
  qed
  have c: "\<not> kl_mean > 2 * d \<and> \<not> (0 < kl_mean \<and> kl_mean < d / 2) \<longrightarrow>
            learning_rate (kl_schedule p kl_mean) = learning_rate p"
    by (auto simp: lr adapt_learning_rate_def mult.commute)
  have o: "optimizer_lr (kl_schedule p kl_mean)
           = map (\<lambda>_. learning_rate (kl_schedule p kl_mean)) (optimizer_lr p)"
    by (simp add: eq)
  have u1: "learning_rate (fst (update_body ops batch (p, acc)))
           = learning_rate (kl_schedule p (forward_kl ops (actor_critic p) batch))"
    by (simp add: update_body_def Let_def)
  have u2: "actor_critic (fst (update_body ops batch (p, acc)))
           = fst (ppo_step ops (actor_critic p)
                    (fst (estimator_update ops (actor_critic p) batch
                            (learning_rate (kl_schedule p (forward_kl ops (actor_critic p) batch)))))
                    batch
                    (optimizer_lr (kl_schedule p (forward_kl ops (actor_critic p) batch))))"
    by (simp add: update_body_def Let_def)
  from a b c o u1 u2 show ?thesis by (intro conjI)
qed

theorem kl_schedule_adaptive_witness:
  "desired_kl sample_ppo = Some (1 / 100) \<and> schedule sample_ppo = ''adaptive''
   \<and> (1::real) > 2 * (1 / 100)
   \<and> learning_rate (kl_schedule sample_ppo 1) = 1 / 1500
   \<and> (0::real) < 1 / 1000 \<and> (1 / 1000 :: real) < (1 / 100) / 2
   \<and> learning_rate (kl_schedule sample_ppo (1 / 1000)) = 3 / 2000
   \<and> \<not> (1 / 100 :: real) > 2 * (1 / 100)
   \<and> \<not> ((0::real) < 1 / 100 \<and> (1 / 100 :: real) < (1 / 100) / 2)
   \<and> learning_rate (kl_schedule sample_ppo (1 / 100)) = 1 / 1000"
proof -
  have h1: "desired_kl sample_ppo = Some (1 / 100)" by (simp add: sample_ppo_def)
  have h2: "schedule sample_ppo = ''adaptive''" by (simp add: sample_ppo_def)
  have lr: "learning_rate sample_ppo = 1 / 1000" by (simp add: sample_ppo_def)
  have c1: "(1::real) > 2 * (1 / 100)" by simp
  have c2: "(0::real) < 1 / 1000 \<and> (1 / 1000 :: real) < (1 / 100) / 2" by simp
  have c3: "\<not> (1 / 100 :: real) > 2 * (1 / 100)
            \<and> \<not> ((0::real) < 1 / 100 \<and> (1 / 100 :: real) < (1 / 100) / 2)" by simp
  from kl_schedule_adaptive[OF h1 h2, of 1, THEN conjunct1] c1
  have r1: "learning_rate (kl_schedule sample_ppo 1) = 1 / 1500" by (simp add: lr)
  from kl_schedule_adaptive[OF h1 h2, of "1 / 1000", THEN conjunct2, THEN conjunct1] c2
  have r2: "learning_rate (kl_schedule sample_ppo (1 / 1000)) = 3 / 2000" by (simp add: lr)
  from kl_schedule_adaptive[OF h1 h2, of "1 / 100", THEN conjunct2, THEN conjunct2, THEN conjunct1] c3
  have r3: "learning_rate (kl_schedule sample_ppo (1 / 100)) = 1 / 1000" by (simp add: lr)
  from h1 h2 c1 r1 c2 r2 c3 r3 show ?thesis by simp
qed

text \<open>
  The claim as first stated fails for an estimate that is not positive: with
  \<open>desired_kl = 0.01\<close> and rate \<open>1e-3\<close>, the estimate 0 is below \<open>d / 2\<close>, yet the
  rate stays \<open>1e-3\<close> and does not become \<open>1.5e-3\<close>.
\<close>

theorem kl_schedule_zero_kl_counterexample:
  "desired_kl sample_ppo = Some (1 / 100) \<and> schedule sample_ppo = ''adaptive''
   \<and> (0::real) < (1 / 100) / 2
   \<and> learning_rate sample_ppo = 1 / 1000
   \<and> learning_rate (kl_schedule sample_ppo 0) = 1 / 1000
   \<and> min (1 / 10 ^ 2) (learning_rate sample_ppo * (3 / 2)) = (3 / 2000 :: real)"
  by (simp add: sample_ppo_def kl_schedule_def adapt_learning_rate_def Let_def)

subsection \<open>Inference\<close>

lemma update_distribution_mean:
  "map_option mean (distribution (update_distribution estimator actor ac obs_history))
     = Some (act_inference estimator actor ac obs_history)"
  by (simp add: update_distribution_def act_inference_def Let_def)

lemma act_inference_state:
  "act_inference estimator actor (update_distribution estimator actor ac obs') obs_history
     = act_inference estimator actor ac obs_history"
  by (simp add: update_distribution_def act_inference_def Let_def)

lemma act_returns:
  "act estimator actor sample ac obs_history g
     = Inr (fst (sample \<lparr>mean = act_inference estimator actor ac obs_history,
                         stddev = map (\<lambda>row. map (\<lambda>ms. fst ms * 0 + snd ms) (zip row (std ac)))
                                    (act_inference estimator actor ac obs_history)\<rparr> g),
            update_distribution estimator actor ac obs_history,
            snd (sample \<lparr>mean = act_inference estimator actor ac obs_history,
                         stddev = map (\<lambda>row. map (\<lambda>ms. fst ms * 0 + snd ms) (zip row (std ac)))
                                    (act_inference estimator actor ac obs_history)\<rparr> g))"
  by (simp add: act_def update_distribution_def act_inference_def Let_def)

text \<open>
  Claim C9. For every observation history, \<open>act\<close> stores a Gaussian whose mean is
  exactly what \<open>act_inference\<close> returns for the same input: the same estimator outputs,
  the same concatenation of the first one-step segment with velocity and latent, the same
  actor network. \<open>act_inference\<close> reads neither the random generator nor the stored
  distribution, so a call returns the same action before and after any \<open>act\<close>, and
  whatever distribution is stored.
\<close>

theorem act_inference_is_mean:
  "(\<exists>a g' d. act estimator actor sample ac obs_history g
                = Inr (a, update_distribution estimator actor ac obs_history, g')
            \<and> distribution (update_distribution estimator actor ac obs_history) = Some d
            \<and> mean d = act_inference estimator actor ac obs_history
            \<and> a = fst (sample d g))
   \<and> act_inference estimator actor
         (update_distribution estimator actor ac obs_history) obs_history
       = act_inference estimator actor ac obs_history
   \<and> act_inference estimator actor (ac\<lparr>distribution := stored\<rparr>) obs_history
       = act_inference estimator actor ac obs_history"
proof (intro conjI)
  let ?m = "act_inference estimator actor ac obs_history"
  let ?d = "\<lparr>mean = ?m,
             stddev = map (\<lambda>row. map (\<lambda>ms. fst ms * 0 + snd ms) (zip row (std ac))) ?m\<rparr>"
  have d: "distribution (update_distribution estimator actor ac obs_history) = Some ?d"
    by (simp add: update_distribution_def act_inference_def Let_def)
  have "act estimator actor sample ac obs_history g
                = Inr (fst (sample ?d g), update_distribution estimator actor ac obs_history,
                       snd (sample ?d g))
            \<and> distribution (update_distribution estimator actor ac obs_history) = Some ?d
            \<and> mean ?d = ?m
            \<and> fst (sample ?d g) = fst (sample ?d g)"
    using act_returns[of estimator actor sample ac obs_history g] d by simp
  then show "\<exists>a g' d. act estimator actor sample ac obs_history g
                = Inr (a, update_distribution estimator actor ac obs_history, g')
            \<and> distribution (update_distribution estimator actor ac obs_history) = Some d
            \<and> mean d = ?m
            \<and> a = fst (sample d g)"
    by (intro exI)
next
  show "act_inference estimator actor
         (update_distribution estimator actor ac obs_history) obs_history
       = act_inference estimator actor ac obs_history"
    by (rule act_inference_state)
next
  show "act_inference estimator actor (ac\<lparr>distribution := stored\<rparr>) obs_history
       = act_inference estimator actor ac obs_history"
    by (simp add: act_inference_def)
qed

subsection \<open>The losses that update returns\<close>

lemma update_result:
  assumes "ppo_storage p = Some st"
    and "mini_batch_generator randperm st (num_mini_batches p) (num_learning_epochs p) g
           = Inr (batches, g')"
    and "num_learning_epochs p * num_mini_batches p \<noteq> 0"
    and "fold (update_body ops) batches
           (p, \<lparr>mean_value_loss = 0, mean_surrogate_loss = 0, mean_estimation_loss = 0,
                mean_swap_loss = 0, estimation_loss = None, swap_loss = None\<rparr>) = (p', acc)"
    and "estimation_loss acc = Some el" and "swap_loss acc = Some sl"
  shows "update ops randperm p g
           = Inr (p'\<lparr>ppo_storage := Some (clear st)\<rparr>,
                  (mean_value_loss acc / real (num_learning_epochs p * num_mini_batches p),
                   mean_surrogate_loss acc / real (num_learning_epochs p * num_mini_batches p),
                   el, sl),
                  g')"
  using assms by (simp add: update_def Let_def)

lemma sample_generator:
  "mini_batch_generator (\<lambda>(g::nat) n. ([0..<n], Suc g)) sample_filled_storage 2 1 0
     = Inr (map (gather_batch sample_filled_storage
                   (observations sample_filled_storage, observations sample_filled_storage))
              [[0], [Suc 0]],
            Suc 0)"
proof -
  let ?s = "sample_filled_storage"
  have b: "num_envs ?s * num_transitions_per_env ?s = 2"
    by (simp add: sample_filled_storage_def HIMRolloutStorage_init_def)
  have d: "(2::nat) div 2 = 1" by simp
  have e: "epoch_batch_idx [0, Suc 0] 2 (Suc 0) = [[0], [Suc 0]]"
    by (simp add: epoch_batch_idx_def slice_def upt_0_2)
  have i: "mini_batch_indices (\<lambda>(g::nat) n. ([0..<n], Suc g)) ?s 2 1 0
             = Inr ([[0], [Suc 0]], Suc 0)"
    unfolding mini_batch_indices_def Let_def b d by (simp add: upt_0_2 e)
  have c: "critic_buffers ?s = Inr (observations ?s, observations ?s)"
    by (simp add: critic_buffers_def sample_filled_storage_def HIMRolloutStorage_init_def)
  show ?thesis unfolding mini_batch_generator_def i c by simp
qed

lemma sample_target_values:
  "target_values_batch (gather_batch sample_filled_storage c [0]) = [1]"
  "target_values_batch (gather_batch sample_filled_storage c [Suc 0]) = [3]"
  by (simp_all add: gather_batch_def index_select_def sample_filled_storage_def)

lemma sample_kl_schedule: "kl_schedule sample_update_ppo (1 / 100) = sample_update_ppo"
  by (simp add: kl_schedule_def adapt_learning_rate_def sample_update_ppo_def sample_ppo_def
        Let_def)

lemma sample_body:
  assumes "target_values_batch batch = [x]"
  shows "update_body sample_torch_ops batch (sample_update_ppo, acc)
           = (sample_update_ppo,
              \<lparr>mean_value_loss = mean_value_loss acc,
               mean_surrogate_loss = mean_surrogate_loss acc,
               mean_estimation_loss = mean_estimation_loss acc + x,
               mean_swap_loss = mean_swap_loss acc,
               estimation_loss = Some x, swap_loss = Some 0\<rparr>)"
proof -
  have f: "forward_kl sample_torch_ops (actor_critic sample_update_ppo) batch = 1 / 100"
    by (simp add: sample_torch_ops_def)
  have e: "estimator_update sample_torch_ops n batch lr = (n, x, 0)" for n lr
    by (simp add: sample_torch_ops_def assms)
  have s: "ppo_step sample_torch_ops n n' batch lrs = (n', 0, 0)" for n n' lrs
    by (simp add: sample_torch_ops_def)
  show ?thesis
    unfolding update_body_def Let_def fst_conv snd_conv f sample_kl_schedule e s
    by simp
qed

text \<open>
  Claim C3. \<open>update\<close> accumulates the four losses over the sweep, divides each sum by
  \<open>num_learning_epochs * num_mini_batches\<close> and clears the storage, but its
  \<^verbatim>\<open>return\<close> statement names \<^verbatim>\<open>estimation_loss\<close> and \<^verbatim>\<open>swap_loss\<close>, the losses of
  the last minibatch, in place of the two means it has just computed. On a sweep of two
  minibatches with estimation losses 1 and 3 the third component returned is 3, where
  the mean over the sweep is 2.
\<close>

theorem update_returns_last_estimation_loss:
  "map_sum id (\<lambda>r. fst (snd r))
     (update sample_torch_ops (\<lambda>(g::nat) n. ([0..<n], Suc g)) sample_update_ppo 0)
     = Inr (0, 0, 3, 0)
   \<and> mean_losses_spec [(0, 0, 1, 0), (0, 0, 3, 0)] = (0, 0, 2, 0)"
proof -
  let ?c = "(observations sample_filled_storage, observations sample_filled_storage)"
  let ?b0 = "gather_batch sample_filled_storage ?c [0]"
  let ?b1 = "gather_batch sample_filled_storage ?c [Suc 0]"
  let ?acc0 = "\<lparr>mean_value_loss = 0, mean_surrogate_loss = 0, mean_estimation_loss = 0,
                mean_swap_loss = 0, estimation_loss = None, swap_loss = None\<rparr>"
  let ?acc2 = "\<lparr>mean_value_loss = 0, mean_surrogate_loss = 0, mean_estimation_loss = 4,
                mean_swap_loss = 0, estimation_loss = Some 3, swap_loss = Some 0\<rparr>"
  have st: "ppo_storage sample_update_ppo = Some sample_filled_storage"
    by (simp add: sample_update_ppo_def)
  have m: "num_mini_batches sample_update_ppo = 2" and e: "num_learning_epochs sample_update_ppo = 1"
    by (simp_all add: sample_update_ppo_def sample_ppo_def)
  have gen: "mini_batch_generator (\<lambda>(g::nat) n. ([0..<n], Suc g)) sample_filled_storage
               (num_mini_batches sample_update_ppo) (num_learning_epochs sample_update_ppo) 0
             = Inr ([?b0, ?b1], Suc 0)"
    unfolding m e using sample_generator by simp
  have nz: "num_learning_epochs sample_update_ppo * num_mini_batches sample_update_ppo \<noteq> 0"
    by (simp add: m e)
  have body: "fold (update_body sample_torch_ops) [?b0, ?b1] (sample_update_ppo, ?acc0)
                = (sample_update_ppo, ?acc2)"
    by (simp add: sample_body[OF sample_target_values(1)] sample_body[OF sample_target_values(2)])
  have "update sample_torch_ops (\<lambda>(g::nat) n. ([0..<n], Suc g)) sample_update_ppo 0
          = Inr (sample_update_ppo\<lparr>ppo_storage := Some (clear sample_filled_storage)\<rparr>,
                 (mean_value_loss ?acc2
                    / real (num_learning_epochs sample_update_ppo * num_mini_batches sample_update_ppo),
                  mean_surrogate_loss ?acc2
                    / real (num_learning_epochs sample_update_ppo * num_mini_batches sample_update_ppo),
                  3, 0),
                 Suc 0)"
    by (rule update_result[OF st gen nz body]) simp_all
  then have code: "map_sum id (\<lambda>r. fst (snd r))
     (update sample_torch_ops (\<lambda>(g::nat) n. ([0..<n], Suc g)) sample_update_ppo 0)
     = Inr (0, 0, 3, 0)"
    by simp
  have spec: "mean_losses_spec [(0, 0, 1, 0), (0, 0, 3, 0)] = (0, 0, 2, 0)"
    by (simp add: mean_losses_spec_def)
  from code spec show ?thesis by (intro conjI)
qed

subsection \<open>Overflow\<close>

text \<open>
  Claim C10. When \<open>add_transitions\<close> is called on a full buffer (\<open>step \<ge> T\<close>) the
  overflow error is raised before any write: the storage left behind, with its step
  counter and every buffer, is the storage the call received.
\<close>

theorem add_transitions_overflow_unchanged:
  assumes "num_transitions_per_env s \<le> step s"
  shows "add_transitions s tr = Inl (BufferOverflow, s)"
  using assms by (simp add: add_transitions_def)

theorem add_transitions_overflow_unchanged_witness:
  "num_transitions_per_env ((HIMRolloutStorage_init 2 1 3 None 1)\<lparr>step := 1\<rparr>)
     \<le> step ((HIMRolloutStorage_init 2 1 3 None 1)\<lparr>step := 1\<rparr>)
   \<and> add_transitions ((HIMRolloutStorage_init 2 1 3 None 1)\<lparr>step := 1\<rparr>) sample_transition
       = Inl (BufferOverflow, (HIMRolloutStorage_init 2 1 3 None 1)\<lparr>step := 1\<rparr>)"
proof -
  have h: "num_transitions_per_env ((HIMRolloutStorage_init 2 1 3 None 1)\<lparr>step := 1\<rparr>)
             \<le> step ((HIMRolloutStorage_init 2 1 3 None 1)\<lparr>step := 1\<rparr>)"
    by (simp add: HIMRolloutStorage_init_def)
  from h add_transitions_overflow_unchanged[OF h, of sample_transition]
  show ?thesis by simp
qed

end
